theory Spec2Isabelle
  imports Complex_Main "HOL-Library.Log_Nat" "HOL-Library.Multiset" "HOL-Library.Product_Lexorder"
begin

section \<open>The stored data (server.js, initDB)\<close>

text \<open>
  The five tables of \<^verbatim>\<open>initDB\<close>. A table is the list of its rows in insertion order.
  A \<^verbatim>\<open>DATE\<close> value (and the string \<^verbatim>\<open>'YYYY-MM-DD'\<close> that denotes it, the form of a date
  that PostgreSQL and \<^verbatim>\<open>new Date\<close> both read) is the number of days since 1970-01-01. \<^verbatim>\<open>INTEGER\<close> columns hold the integers accepted by \<open>int4\<close> below.
  The \<^verbatim>\<open>created_at\<close> columns are wall-clock time stamps that no route reads; they are
  left out. Every \<^verbatim>\<open>SERIAL\<close> id column has its sequence, which \<^verbatim>\<open>DELETE\<close> does not rewind.
\<close>

type_synonym day = int

record piano_session =
  ps_id :: nat
  ps_date :: day
  ps_minutes :: int

record weekly_award =
  wa_id :: nat
  wa_week_start :: day

record test_row =
  test_id :: nat
  test_date :: day
  test_subject :: string
  test_score :: int
  test_max_score :: int
  test_awarded :: bool

record incident =
  inc_id :: nat
  inc_date :: day
  inc_note :: string

record transaction =
  tx_id :: nat
  tx_date :: day
  tx_type :: string
  tx_amount :: int
  tx_description :: string

record db =
  piano_sessions :: "piano_session list"
  weekly_awards :: "weekly_award list"
  tests :: "test_row list"
  incidents :: "incident list"
  transactions :: "transaction list"
  piano_sessions_seq :: nat
  weekly_awards_seq :: nat
  tests_seq :: nat
  incidents_seq :: nat
  transactions_seq :: nat

definition empty_db :: db where
  "empty_db = \<lparr>piano_sessions = [], weekly_awards = [], tests = [], incidents = [],
     transactions = [], piano_sessions_seq = 0, weekly_awards_seq = 0, tests_seq = 0,
     incidents_seq = 0, transactions_seq = 0\<rparr>"

text \<open>What a route answers with when it does not succeed: 404 and 500.\<close>

datatype error = NotFound | StorageFailure

datatype ok = Success

definition int4 :: "int \<Rightarrow> bool" where
  "int4 n = (- 2147483648 \<le> n \<and> n \<le> 2147483647)"

text \<open>The \<^verbatim>\<open>INSERT\<close> statements: the row goes to the end of its table with the next id.\<close>

definition insert_piano_session :: "day \<Rightarrow> int \<Rightarrow> db \<Rightarrow> db" where
  "insert_piano_session date minutes s =
     s\<lparr>piano_sessions := piano_sessions s @
          [\<lparr>ps_id = piano_sessions_seq s + 1, ps_date = date, ps_minutes = minutes\<rparr>],
       piano_sessions_seq := piano_sessions_seq s + 1\<rparr>"

definition insert_weekly_award :: "day \<Rightarrow> db \<Rightarrow> db" where
  "insert_weekly_award week_start s =
     s\<lparr>weekly_awards := weekly_awards s @
          [\<lparr>wa_id = weekly_awards_seq s + 1, wa_week_start = week_start\<rparr>],
       weekly_awards_seq := weekly_awards_seq s + 1\<rparr>"

definition insert_test :: "day \<Rightarrow> string \<Rightarrow> int \<Rightarrow> int \<Rightarrow> bool \<Rightarrow> db \<Rightarrow> db" where
  "insert_test date subject score max_score awarded s =
     s\<lparr>tests := tests s @
          [\<lparr>test_id = tests_seq s + 1, test_date = date, test_subject = subject,
            test_score = score, test_max_score = max_score, test_awarded = awarded\<rparr>],
       tests_seq := tests_seq s + 1\<rparr>"

definition insert_incident :: "day \<Rightarrow> string \<Rightarrow> db \<Rightarrow> db" where
  "insert_incident date note s =
     s\<lparr>incidents := incidents s @
          [\<lparr>inc_id = incidents_seq s + 1, inc_date = date, inc_note = note\<rparr>],
       incidents_seq := incidents_seq s + 1\<rparr>"

definition insert_transaction :: "day \<Rightarrow> string \<Rightarrow> int \<Rightarrow> string \<Rightarrow> db \<Rightarrow> db" where
  "insert_transaction date type amount description s =
     s\<lparr>transactions := transactions s @
          [\<lparr>tx_id = transactions_seq s + 1, tx_date = date, tx_type = type,
            tx_amount = amount, tx_description = description\<rparr>],
       transactions_seq := transactions_seq s + 1\<rparr>"

text \<open>\<^verbatim>\<open>ORDER BY k DESC\<close>: the rows by falling key. SQL leaves the order of rows of equal
  key to the database; here they come in the order of their insertion.\<close>

definition order_by_desc :: "('a \<Rightarrow> 'k::linorder) \<Rightarrow> 'a list \<Rightarrow> 'a list" where
  "order_by_desc k rows = rev (sort_key k (rev rows))"

section \<open>JavaScript dates (what getWeekStart is made of)\<close>

text \<open>
  A \<^verbatim>\<open>Date\<close> is a time value: milliseconds since 1970-01-01T00:00Z. The accessors
  \<^verbatim>\<open>getDay\<close>, \<^verbatim>\<open>getDate\<close> and \<^verbatim>\<open>setDate\<close> work in the local time of the Node process,
  \<^verbatim>\<open>new Date('YYYY-MM-DD')\<close> and \<^verbatim>\<open>toISOString\<close> in UTC. The local time zone is the
  parameter \<open>tz\<close>: minutes east of UTC (the negated \<^verbatim>\<open>getTimezoneOffset()\<close>), taken as
  constant, so without daylight saving changes. \<open>tz = 0\<close> is a process running in UTC.
\<close>

type_synonym time = int

definition msPerDay :: int where
  "msPerDay = 86400000"

definition Day :: "time \<Rightarrow> day" where
  "Day t = t div msPerDay"

definition TimeWithinDay :: "time \<Rightarrow> int" where
  "TimeWithinDay t = t mod msPerDay"

definition WeekDay :: "time \<Rightarrow> int" where
  "WeekDay t = (Day t + 4) mod 7"

definition LocalTime :: "int \<Rightarrow> time \<Rightarrow> time" where
  "LocalTime tz t = t + tz * 60000"

definition UTC :: "int \<Rightarrow> time \<Rightarrow> time" where
  "UTC tz t = t - tz * 60000"

text \<open>The proleptic Gregorian calendar: a day number from year, month and day of the
  month, and back.\<close>

definition days_from_civil :: "int \<Rightarrow> int \<Rightarrow> int \<Rightarrow> day" where
  "days_from_civil y m d =
     (let y' = (if m \<le> 2 then y - 1 else y);
          era = y' div 400;
          yoe = y' - era * 400;
          doy = (153 * (if 2 < m then m - 3 else m + 9) + 2) div 5 + d - 1;
          doe = yoe * 365 + yoe div 4 - yoe div 100 + doy
      in era * 146097 + doe - 719468)"

definition civil_from_days :: "day \<Rightarrow> int \<times> int \<times> int" where
  "civil_from_days z =
     (let z' = z + 719468;
          era = z' div 146097;
          doe = z' - era * 146097;
          yoe = (doe - doe div 1460 + doe div 36524 - doe div 146096) div 365;
          doy = doe - (365 * yoe + yoe div 4 - yoe div 100);
          mp = (5 * doy + 2) div 153;
          d = doy - (153 * mp + 2) div 5 + 1;
          m = (if mp < 10 then mp + 3 else mp - 9)
      in (yoe + era * 400 + (if m \<le> 2 then 1 else 0), m, d))"

definition DateFromTime :: "time \<Rightarrow> int" where
  "DateFromTime t = snd (snd (civil_from_days (Day t)))"

text \<open>What \<^verbatim>\<open>new Date(x)\<close> gets in this program: the string \<^verbatim>\<open>'YYYY-MM-DD'\<close> of a request
  body or of \<^verbatim>\<open>toISOString\<close> (UTC midnight of that day), or the \<^verbatim>\<open>Date\<close> object that
  node-postgres builds for a \<^verbatim>\<open>DATE\<close> column (local midnight of that day).\<close>

datatype date_arg = DateStr day | DateObj time

definition pg_date :: "int \<Rightarrow> day \<Rightarrow> date_arg" where
  "pg_date tz d = DateObj (UTC tz (d * msPerDay))"

fun new_Date :: "date_arg \<Rightarrow> time" where
  "new_Date (DateStr d) = d * msPerDay"
| "new_Date (DateObj t) = t"

definition getDay :: "int \<Rightarrow> time \<Rightarrow> int" where
  "getDay tz t = WeekDay (LocalTime tz t)"

definition getDate :: "int \<Rightarrow> time \<Rightarrow> int" where
  "getDate tz t = DateFromTime (LocalTime tz t)"

text \<open>\<^verbatim>\<open>setDate(dt)\<close>: the local day becomes day \<open>dt\<close> counted from the first of the local
  month (day 1), also when \<open>dt\<close> is below 1 or beyond the month's end; the local time
  within the day stays.\<close>

definition setDate :: "int \<Rightarrow> time \<Rightarrow> int \<Rightarrow> time" where
  "setDate tz t dt =
     (let lt = LocalTime tz t;
          first = Day lt - (DateFromTime lt - 1)
      in UTC tz ((first + dt - 1) * msPerDay + TimeWithinDay lt))"

text \<open>\<^verbatim>\<open>toISOString().split('T')[0]\<close>: the UTC day of the time value.\<close>

definition toISODate :: "time \<Rightarrow> day" where
  "toISODate t = Day t"

text \<open>
  \<^verbatim>\<open>
  function getWeekStart(dateStr) {
      const d = new Date(dateStr);
      const day = d.getDay();
      const diff = d.getDate() - day + (day === 0 ? -6 : 1);
      return new Date(d.setDate(diff)).toISOString().split('T')[0];
  }
  \<close>
\<close>

definition getWeekStart :: "int \<Rightarrow> date_arg \<Rightarrow> day" where
  "getWeekStart tz dateStr =
     (let d = new_Date dateStr;
          day = getDay tz d;
          diff = getDate tz d - day + (if day = 0 then - 6 else 1)
      in toISODate (setDate tz d diff))"

section \<open>JavaScript numbers (what the test route computes with)\<close>

text \<open>
  A Number is an IEEE 754 double: a rational that 53 significant bits represent, one of
  the two zeros, one of the two infinities, or NaN. \<open>Num 0\<close> is the zero \<open>+0\<close> and
  \<open>NegZero\<close> the zero \<open>-0\<close> (the Number that \<^verbatim>\<open>express.json()\<close> makes of \<^verbatim>\<open>-0\<close> in a request
  body). \<open>rnd\<close> rounds a rational to the nearest double, ties to the even significand.
  Results beyond the exponent range of doubles (overflow, subnormal numbers) are not
  modelled: the one computation of this program whose result is stored or answered has
  \<^verbatim>\<open>INTEGER\<close> operands and the constant 100, and its quotients and products stay far inside
  that range.
\<close>

definition binade :: "rat \<Rightarrow> int" where
  "binade x = (if 1 \<le> \<bar>x\<bar> then bitlen \<lfloor>\<bar>x\<bar>\<rfloor> - 1 else - bitlen (\<lceil>1 / \<bar>x\<bar>\<rceil> - 1))"

definition round_half_even :: "rat \<Rightarrow> int" where
  "round_half_even q =
     (let f = \<lfloor>q\<rfloor>; r = q - of_int f
      in if r < 1 / 2 then f else if 1 / 2 < r then f + 1 else if even f then f else f + 1)"

definition rnd :: "rat \<Rightarrow> rat" where
  "rnd x = (if x = 0 then 0
            else let u = 2 powi (binade x - 52) in of_int (round_half_even (x / u)) * u)"

datatype jsnum = Num rat | NegZero | PosInf | NegInf | NaN

fun js_zero :: "jsnum \<Rightarrow> bool" where
  "js_zero (Num q) = (q = 0)"
| "js_zero NegZero = True"
| "js_zero _ = False"

fun js_infinite :: "jsnum \<Rightarrow> bool" where
  "js_infinite PosInf = True"
| "js_infinite NegInf = True"
| "js_infinite _ = False"

text \<open>The sign bit, and the value of a finite Number.\<close>

fun js_negative :: "jsnum \<Rightarrow> bool" where
  "js_negative (Num q) = (q < 0)"
| "js_negative NegZero = True"
| "js_negative NegInf = True"
| "js_negative _ = False"

fun js_value :: "jsnum \<Rightarrow> rat" where
  "js_value (Num q) = q"
| "js_value _ = 0"

text \<open>\<^verbatim>\<open>x / y\<close> and \<^verbatim>\<open>x * y\<close>. A quotient or product that is a zero or an infinity has the
  sign bit of \<open>x\<close> exclusive-or that of \<open>y\<close>; \<open>0 / 0\<close>, \<open>\<infinity> / \<infinity>\<close> and \<open>0 * \<infinity>\<close> are NaN.\<close>

definition js_div :: "jsnum \<Rightarrow> jsnum \<Rightarrow> jsnum" where
  "js_div x y =
     (if x = NaN \<or> y = NaN then NaN
      else if (js_infinite x \<and> js_infinite y) \<or> (js_zero x \<and> js_zero y) then NaN
      else if js_infinite x \<or> js_zero y then
        (if js_negative x = js_negative y then PosInf else NegInf)
      else if js_zero x \<or> js_infinite y then
        (if js_negative x = js_negative y then Num 0 else NegZero)
      else Num (rnd (js_value x / js_value y)))"

definition js_mul :: "jsnum \<Rightarrow> jsnum \<Rightarrow> jsnum" where
  "js_mul x y =
     (if x = NaN \<or> y = NaN then NaN
      else if (js_infinite x \<and> js_zero y) \<or> (js_zero x \<and> js_infinite y) then NaN
      else if js_infinite x \<or> js_infinite y then
        (if js_negative x = js_negative y then PosInf else NegInf)
      else if js_zero x \<or> js_zero y then
        (if js_negative x = js_negative y then Num 0 else NegZero)
      else Num (rnd (js_value x * js_value y)))"

text \<open>\<^verbatim>\<open>x >= y\<close>: false as soon as one side is NaN; the two zeros are equal.\<close>

definition js_ge :: "jsnum \<Rightarrow> jsnum \<Rightarrow> bool" where
  "js_ge x y =
     (if x = NaN \<or> y = NaN then False
      else if x = PosInf \<or> y = NegInf then True
      else if js_infinite x \<or> js_infinite y then False
      else js_value y \<le> js_value x)"

section \<open>Numbers in strings\<close>

fun digits :: "nat \<Rightarrow> string" where
  "digits n = (if n < 10 then [''0123456789'' ! n]
               else digits (n div 10) @ [''0123456789'' ! (n mod 10)])"

text \<open>An integer Number as a string (in a template literal, or as node-postgres sends
  it): below \<open>10^21\<close> in size, as every \<^verbatim>\<open>INTEGER\<close> and every sum of minutes this program
  can hold is, it is written in decimal digits. Both zeros are written \<^verbatim>\<open>0\<close>.\<close>

definition show_int :: "int \<Rightarrow> string" where
  "show_int n = (if n < 0 then CHR ''-'' # digits (nat (- n)) else digits (nat n))"

text \<open>\<^verbatim>\<open>x.toFixed(0)\<close>: the nearest integer, the larger one of two equally near, after the
  sign; the names of the special values. (Number.prototype.toFixed switches to the
  exponent notation from \<open>10^21\<close> on, which is not modelled: the one call of this program
  comes after \<^verbatim>\<open>INSERT INTO tests\<close> has accepted score and maxScore as \<^verbatim>\<open>INTEGER\<close>.)\<close>

definition toFixed0 :: "jsnum \<Rightarrow> string" where
  "toFixed0 x =
     (case x of
        Num q \<Rightarrow> (if q < 0 then CHR ''-'' # digits (nat \<lfloor>- q + 1 / 2\<rfloor>)
                  else digits (nat \<lfloor>q + 1 / 2\<rfloor>))
      | NegZero \<Rightarrow> ''0''
      | PosInf \<Rightarrow> ''Infinity''
      | NegInf \<Rightarrow> ''-Infinity''
      | NaN \<Rightarrow> ''NaN'')"

text \<open>A Number in the JSON text of an answer (\<^verbatim>\<open>res.json\<close>, that is \<^verbatim>\<open>JSON.stringify\<close>): a
  finite one is written so that reading it gives the same value, \<open>-0\<close> is written \<^verbatim>\<open>0\<close>,
  and the infinities and NaN are written \<^verbatim>\<open>null\<close> (\<open>None\<close>).\<close>

definition json_number :: "jsnum \<Rightarrow> rat option" where
  "json_number x =
     (case x of
        Num q \<Rightarrow> Some q
      | NegZero \<Rightarrow> Some 0
      | _ \<Rightarrow> None)"

section \<open>What PostgreSQL accepts\<close>

text \<open>
  node-postgres sends every parameter of \<^verbatim>\<open>pool.query\<close> as a string, and PostgreSQL reads
  it as the type of its column. A statement with a parameter it cannot read, or a row it
  cannot store, is refused, and \<^verbatim>\<open>pool.query\<close> throws.

  A date is sent as the string that denotes it: \<^verbatim>\<open>'YYYY-MM-DD'\<close> in the years 0000 to
  9999, and with a sign and six digits of year beyond them (what \<^verbatim>\<open>toISOString\<close> prints).
  A \<^verbatim>\<open>DATE\<close> is read from the first form, from the year 0001 on: PostgreSQL has no year
  0000.
\<close>

definition pg_date_ok :: "day \<Rightarrow> bool" where
  "pg_date_ok d = (days_from_civil 1 1 1 \<le> d \<and> d \<le> days_from_civil 9999 12 31)"

text \<open>A Number is sent as its string: an \<^verbatim>\<open>INTEGER\<close> is read from decimal digits within
  \<open>int4\<close>, so from an integral Number of that range (\<open>-0\<close> is sent as \<^verbatim>\<open>0\<close>); a fraction,
  an exponent, \<^verbatim>\<open>Infinity\<close> and \<^verbatim>\<open>NaN\<close> are refused. The result is the integer read.\<close>

definition pg_int4 :: "jsnum \<Rightarrow> int option" where
  "pg_int4 x =
     (case x of
        Num q \<Rightarrow> (if q = of_int \<lfloor>q\<rfloor> \<and> int4 \<lfloor>q\<rfloor> then Some \<lfloor>q\<rfloor> else None)
      | NegZero \<Rightarrow> Some 0
      | _ \<Rightarrow> None)"

text \<open>A string (of single-byte characters, as \<open>string\<close> has them) is read as \<^verbatim>\<open>TEXT\<close> or
  \<^verbatim>\<open>VARCHAR\<close> unless it holds the character NUL. \<^verbatim>\<open>VARCHAR(255)\<close> stores up to 255
  characters; of a longer string it stores the first 255 when all the others are
  spaces, and refuses it otherwise.\<close>

definition pg_text_ok :: "string \<Rightarrow> bool" where
  "pg_text_ok t = (filter (\<lambda>c. c = CHR 0x00) t = [])"

definition varchar255 :: "string \<Rightarrow> string option" where
  "varchar255 t =
     (if filter (\<lambda>c. c \<noteq> CHR '' '') (drop 255 t) = [] then Some (take 255 t) else None)"

text \<open>A \<^verbatim>\<open>SERIAL\<close> column draws its ids from a sequence of \<^verbatim>\<open>INTEGER\<close> range: an \<^verbatim>\<open>INSERT\<close> is
  refused once the sequence has issued its last value.\<close>

definition has_next :: "nat \<Rightarrow> bool" where
  "has_next seq = (int seq < 2147483647)"

section \<open>The routes\<close>

text \<open>
  Every route is modelled from the call of its handler with the parsed body of the
  request (a body that \<^verbatim>\<open>express.json()\<close> turns away does not reach a handler), takes the
  stored state and returns its answer with the state it leaves. When \<^verbatim>\<open>pool.query\<close>
  throws, the route's \<^verbatim>\<open>catch\<close> answers 500, and what the statements before have stored
  stays: no route runs in a database transaction. (\<^verbatim>\<open>INSERT INTO weekly_awards\<close> runs
  only after the route has found no award of that week start, so that the \<^verbatim>\<open>UNIQUE\<close>
  constraint holds.) Requests are handled one after the other; a lost connection to
  the database is not modelled.
\<close>

record data_response =
  r_balance :: int
  r_pianoSessions :: "piano_session list"
  r_weeklyAwards :: "weekly_award list"
  r_tests :: "test_row list"
  r_incidents :: "incident list"
  r_transactions :: "transaction list"

record piano_response =
  rp_awarded :: bool
  rp_weekMinutes :: int

text \<open>The answer of the test route, as its JSON text gives it: \<open>percentage\<close> is a number
  or \<^verbatim>\<open>null\<close>.\<close>

record test_response =
  rt_awarded :: bool
  rt_percentage :: "rat option"

text \<open>\<^verbatim>\<open>app.get('/api/data')\<close>\<close>

definition get_api_data :: "db \<Rightarrow> data_response \<times> db" where
  "get_api_data s =
     (\<lparr>r_balance = sum_list (map tx_amount (transactions s)),
       r_pianoSessions = order_by_desc ps_date (piano_sessions s),
       r_weeklyAwards = weekly_awards s,
       r_tests = order_by_desc test_date (tests s),
       r_incidents = order_by_desc inc_date (incidents s),
       r_transactions = order_by_desc (\<lambda>t. (tx_date t, tx_id t)) (transactions s)\<rparr>, s)"

text \<open>\<^verbatim>\<open>app.post('/api/piano')\<close>: \<open>minutes\<close> is an integer of the request body. The first
  \<^verbatim>\<open>INSERT\<close> has the date and the minutes of the request as parameters, the two \<^verbatim>\<open>SELECT\<close>s
  and \<^verbatim>\<open>INSERT INTO weekly_awards\<close> the week start and the week end that the route has
  computed.\<close>

definition post_api_piano :: "int \<Rightarrow> db \<Rightarrow> day \<Rightarrow> int \<Rightarrow> (error + piano_response) \<times> db" where
  "post_api_piano tz s date minutes =
     (if pg_date_ok date \<and> int4 minutes \<and> has_next (piano_sessions_seq s) then
        let s1 = insert_piano_session date minutes s;
            weekStart = getWeekStart tz (DateStr date);
            weekEnd = new_Date (DateStr weekStart);
            weekEndStr = toISODate (setDate tz weekEnd (getDate tz weekEnd + 6))
        in if pg_date_ok weekStart \<and> pg_date_ok weekEndStr then
             let weekMinutes = sum_list (map ps_minutes
                   (filter (\<lambda>p. weekStart \<le> ps_date p \<and> ps_date p \<le> weekEndStr) (piano_sessions s1)));
                 awardCheck = filter (\<lambda>a. wa_week_start a = weekStart) (weekly_awards s1)
             in if 150 \<le> weekMinutes \<and> awardCheck = [] then
                  (if has_next (weekly_awards_seq s1) then
                     let s2 = insert_weekly_award weekStart s1
                     in if has_next (transactions_seq s2) then
                          (Inr \<lparr>rp_awarded = True, rp_weekMinutes = weekMinutes\<rparr>,
                           insert_transaction date ''piano'' 50
                             (''Weekly piano goal met! ('' @ show_int weekMinutes @ '' min)'') s2)
                        else (Inl StorageFailure, s2)
                   else (Inl StorageFailure, s1))
                else (Inr \<lparr>rp_awarded = False, rp_weekMinutes = weekMinutes\<rparr>, s1)
           else (Inl StorageFailure, s1)
      else (Inl StorageFailure, s))"

text \<open>\<^verbatim>\<open>app.post('/api/test')\<close>: \<open>score\<close> and \<open>maxScore\<close> are Numbers of the request body.
  The percentage and the verdict are computed before the row is offered to the table.
  The description of the reward has the subject as the request gave it.\<close>

definition post_api_test ::
    "db \<Rightarrow> day \<Rightarrow> string \<Rightarrow> jsnum \<Rightarrow> jsnum \<Rightarrow> (error + test_response) \<times> db" where
  "post_api_test s date subject score maxScore =
     (let percentage = js_mul (js_div score maxScore) (Num 100);
          awarded = js_ge percentage (Num 95)
      in case (pg_int4 score, pg_int4 maxScore, varchar255 subject) of
           (Some sc, Some ms, Some sub) \<Rightarrow>
             if pg_date_ok date \<and> pg_text_ok subject \<and> has_next (tests_seq s) then
               let s1 = insert_test date sub sc ms awarded s
               in if awarded then
                    (if has_next (transactions_seq s1) then
                       (Inr \<lparr>rt_awarded = awarded, rt_percentage = json_number percentage\<rparr>,
                        insert_transaction date ''test'' 100
                          (subject @ '' test: '' @ show_int sc @ ''/'' @ show_int ms @
                           '' ('' @ toFixed0 percentage @ ''%)'') s1)
                     else (Inl StorageFailure, s1))
                  else (Inr \<lparr>rt_awarded = awarded, rt_percentage = json_number percentage\<rparr>, s1)
             else (Inl StorageFailure, s)
         | _ \<Rightarrow> (Inl StorageFailure, s))"

text \<open>\<^verbatim>\<open>app.post('/api/incident')\<close>: the note of the request body may be missing
  (\<open>None\<close>); a missing and an empty note are both falsy.\<close>

definition post_api_incident :: "db \<Rightarrow> day \<Rightarrow> string option \<Rightarrow> (error + ok) \<times> db" where
  "post_api_incident s date note =
     (let stored = (case note of None \<Rightarrow> [] | Some n \<Rightarrow> n)
      in if pg_date_ok date \<and> pg_text_ok stored \<and> has_next (incidents_seq s) then
           let s1 = insert_incident date stored s
           in if has_next (transactions_seq s1) then
                (Inr Success,
                 insert_transaction date ''incident'' (- 50)
                   (case note of
                      None \<Rightarrow> ''Crying incident''
                    | Some n \<Rightarrow> (if n = [] then ''Crying incident'' else ''Incident: '' @ n)) s1)
              else (Inl StorageFailure, s1)
         else (Inl StorageFailure, s))"

text \<open>\<^verbatim>\<open>app.delete('/api/transaction/:id')\<close>: \<^verbatim>\<open>tx.date\<close> is the \<^verbatim>\<open>Date\<close> that node-postgres
  made of the row's \<^verbatim>\<open>DATE\<close>; \<open>tid\<close> is the \<^verbatim>\<open>id\<close> of the request. The week start is a
  parameter of \<^verbatim>\<open>DELETE FROM weekly_awards\<close>.\<close>

definition delete_api_transaction :: "int \<Rightarrow> db \<Rightarrow> nat \<Rightarrow> (error + ok) \<times> db" where
  "delete_api_transaction tz s tid =
     (if \<not> int4 (int tid) then (Inl StorageFailure, s)
      else
        case filter (\<lambda>t. tx_id t = tid) (transactions s) of
          [] \<Rightarrow> (Inl NotFound, s)
        | tx # _ \<Rightarrow>
            if tx_type tx = ''piano'' \<and> 0 < tx_amount tx then
              let weekStart = getWeekStart tz (pg_date tz (tx_date tx))
              in if pg_date_ok weekStart then
                   (Inr Success,
                    s\<lparr>weekly_awards :=
                        filter (\<lambda>a. wa_week_start a \<noteq> weekStart) (weekly_awards s),
                      transactions := filter (\<lambda>t. tx_id t \<noteq> tid) (transactions s)\<rparr>)
                 else (Inl StorageFailure, s)
            else (Inr Success, s\<lparr>transactions := filter (\<lambda>t. tx_id t \<noteq> tid) (transactions s)\<rparr>))"

text \<open>\<^verbatim>\<open>app.post('/api/reset')\<close>\<close>

definition post_api_reset :: "db \<Rightarrow> (error + ok) \<times> db" where
  "post_api_reset s =
     (Inr Success,
      s\<lparr>transactions := [], piano_sessions := [], weekly_awards := [], tests := [],
        incidents := []\<rparr>)"

text \<open>A server's life: requests handled one after the other, from the empty tables.\<close>

datatype request =
    GetData
  | PostPiano day int
  | PostTest day string jsnum jsnum
  | PostIncident day "string option"
  | DeleteTransaction nat
  | PostReset

fun handle :: "int \<Rightarrow> db \<Rightarrow> request \<Rightarrow> db" where
  "handle tz s GetData = snd (get_api_data s)"
| "handle tz s (PostPiano date minutes) = snd (post_api_piano tz s date minutes)"
| "handle tz s (PostTest date subject score maxScore) =
     snd (post_api_test s date subject score maxScore)"
| "handle tz s (PostIncident date note) = snd (post_api_incident s date note)"
| "handle tz s (DeleteTransaction tid) = snd (delete_api_transaction tz s tid)"
| "handle tz s PostReset = snd (post_api_reset s)"

definition run :: "int \<Rightarrow> request list \<Rightarrow> db" where
  "run tz reqs = foldl (handle tz) empty_db reqs"

section \<open>Invariants of the stored state\<close>

text \<open>The primary key of \<^verbatim>\<open>transactions\<close>: ids are distinct, and none is beyond what the
  sequence has issued.\<close>

definition tx_ids_ok :: "db \<Rightarrow> bool" where
  "tx_ids_ok s = (distinct (map tx_id (transactions s)) \<and>
     list_all (\<lambda>t. tx_id t \<le> transactions_seq s) (transactions s))"

text \<open>The coupling of weekly awards and piano rewards. A day is a Monday when the
  weekday of its \<^verbatim>\<open>Date\<close> is 1. For a Monday \<open>ws\<close>: the awards stored for \<open>ws\<close>, and the
  positive piano transactions dated in the week from \<open>ws\<close> to \<open>ws + 6\<close>. The state is
  coupled when every Monday has as many of the one as of the other, and at most one,
  and every award is stored for a Monday.\<close>

definition is_monday :: "day \<Rightarrow> bool" where
  "is_monday d = (WeekDay (new_Date (DateStr d)) = 1)"

definition awards_for :: "db \<Rightarrow> day \<Rightarrow> weekly_award list" where
  "awards_for s ws = filter (\<lambda>a. wa_week_start a = ws) (weekly_awards s)"

definition piano_rewards :: "db \<Rightarrow> day \<Rightarrow> transaction list" where
  "piano_rewards s ws =
     filter (\<lambda>t. tx_type t = ''piano'' \<and> 0 < tx_amount t \<and> ws \<le> tx_date t \<and> tx_date t \<le> ws + 6)
       (transactions s)"

definition week_ok :: "db \<Rightarrow> day \<Rightarrow> bool" where
  "week_ok s ws = (length (awards_for s ws) = length (piano_rewards s ws) \<and>
     length (awards_for s ws) \<le> 1)"

definition coupled :: "db \<Rightarrow> bool" where
  "coupled s = ((\<forall>ws. is_monday ws \<longrightarrow> week_ok s ws) \<and>
     list_all (\<lambda>a. is_monday (wa_week_start a)) (weekly_awards s))"

section \<open>Transaction ids stay distinct\<close>

lemma filter_distinct_id:
  assumes "distinct (map f xs)" "x \<in> set xs"
  shows "\<exists>before after. xs = before @ x # after \<and> filter (\<lambda>t. f t = f x) xs = [x]
           \<and> filter (\<lambda>t. f t \<noteq> f x) xs = before @ after"
proof -
  from assms(2) obtain before after where xs: "xs = before @ x # after"
    by (auto simp: in_set_conv_decomp)
  with assms(1) have nb: "\<forall>t\<in>set before. f t \<noteq> f x" and na: "\<forall>t\<in>set after. f t \<noteq> f x"
    by (auto simp: image_iff)
  have "filter (\<lambda>t. f t = f x) xs = [x]"
    using nb na by (simp add: xs filter_empty_conv)
  moreover have "filter (\<lambda>t. f t \<noteq> f x) xs = before @ after"
    using nb na by (simp add: xs filter_id_conv)
  ultimately show ?thesis using xs by blast
qed

lemma tx_ids_ok_insert_transaction:
  "tx_ids_ok s \<Longrightarrow> tx_ids_ok (insert_transaction d ty a de s)"
  by (auto simp: tx_ids_ok_def insert_transaction_def list_all_iff)

lemma tx_ids_ok_handle: "tx_ids_ok s \<Longrightarrow> tx_ids_ok (handle tz s r)"
proof (cases r)
  case GetData
  then show "tx_ids_ok s \<Longrightarrow> ?thesis" by (simp add: get_api_data_def)
next
  case (PostPiano date minutes)
  assume ok: "tx_ids_ok s"
  have 1: "tx_ids_ok (insert_piano_session date minutes s)"
    using ok by (simp add: tx_ids_ok_def insert_piano_session_def)
  have 2: "\<And>w s'. tx_ids_ok s' \<Longrightarrow> tx_ids_ok (insert_weekly_award w s')"
    by (simp add: tx_ids_ok_def insert_weekly_award_def)
  show ?thesis
    using ok 1 2 by (simp add: PostPiano post_api_piano_def Let_def tx_ids_ok_insert_transaction)
next
  case (PostTest date subject score maxScore)
  assume ok: "tx_ids_ok s"
  have "\<And>sub sc ms a. tx_ids_ok (insert_test date sub sc ms a s)"
    using ok by (simp add: tx_ids_ok_def insert_test_def)
  then show ?thesis
    using ok
    by (simp add: PostTest post_api_test_def Let_def tx_ids_ok_insert_transaction
        split: option.splits)
next
  case (PostIncident date n)
  assume ok: "tx_ids_ok s"
  have "\<And>a. tx_ids_ok (insert_incident date a s)"
    using ok by (simp add: tx_ids_ok_def insert_incident_def)
  then show ?thesis
    using ok by (simp add: PostIncident post_api_incident_def Let_def tx_ids_ok_insert_transaction)
next
  case (DeleteTransaction tid)
  assume ok: "tx_ids_ok s"
  show ?thesis
    using ok
    by (auto simp: DeleteTransaction delete_api_transaction_def Let_def tx_ids_ok_def
        list_all_iff distinct_map_filter split: list.splits)
next
  case PostReset
  then show "tx_ids_ok s \<Longrightarrow> ?thesis" by (simp add: post_api_reset_def tx_ids_ok_def)
qed

lemma tx_ids_ok_run: "tx_ids_ok (run tz reqs)"
  unfolding run_def
  by (induction reqs rule: rev_induct)
     (simp_all add: tx_ids_ok_def empty_db_def tx_ids_ok_handle [unfolded tx_ids_ok_def])

lemma run_transaction_ids_distinct: "distinct (map tx_id (transactions (run tz reqs)))"
  using tx_ids_ok_run [of tz reqs] by (simp add: tx_ids_ok_def)

text \<open>A request draws at most one id from the sequence of \<^verbatim>\<open>transactions\<close>; so the sequence
  has ids left while the server has handled fewer than \<open>2^31 - 1\<close> requests.\<close>

lemma transactions_seq_handle: "transactions_seq (handle tz s r) \<le> transactions_seq s + 1"
proof (cases r)
  case GetData
  then show ?thesis by (simp add: get_api_data_def)
next
  case (PostPiano date minutes)
  then show ?thesis
    by (simp add: post_api_piano_def Let_def insert_piano_session_def insert_weekly_award_def
        insert_transaction_def)
next
  case (PostTest date subject score maxScore)
  then show ?thesis
    by (simp add: post_api_test_def Let_def insert_test_def insert_transaction_def
        split: option.splits)
next
  case (PostIncident date n)
  then show ?thesis
    by (simp add: post_api_incident_def Let_def insert_incident_def insert_transaction_def)
next
  case (DeleteTransaction tid)
  then show ?thesis
    by (simp add: delete_api_transaction_def Let_def split: list.splits)
next
  case PostReset
  then show ?thesis by (simp add: post_api_reset_def)
qed

lemma transactions_seq_run: "transactions_seq (run tz reqs) \<le> length reqs"
proof (induction reqs rule: rev_induct)
  case Nil
  show ?case by (simp add: run_def empty_db_def)
next
  case (snoc r reqs)
  have "run tz (reqs @ [r]) = handle tz (run tz reqs) r" by (simp add: run_def)
  then show ?case using transactions_seq_handle [of tz "run tz reqs" r] snoc by simp
qed

section \<open>The incident rule\<close>

lemma post_api_incident_refused:
  assumes "\<not> (pg_date_ok date \<and> pg_text_ok (case note of None \<Rightarrow> [] | Some n \<Rightarrow> n)
              \<and> has_next (incidents_seq s))"
  shows "post_api_incident s date note = (Inl StorageFailure, s)"
  using assms by (auto simp: post_api_incident_def Let_def)

text \<open>
  C6 (as amended). An incident with (date, note) that the table accepts - the date a
  day of the years 0001 to 9999, the note without the character NUL - while the
  sequences of \<^verbatim>\<open>incidents\<close> and of \<^verbatim>\<open>transactions\<close> have ids left, is answered with success
  and stores exactly one incident row and exactly one transaction (date, "incident",
  -50), whatever the rows stored before: there is no threshold and no check for an
  earlier one. The stored note is the empty string when the request has none. The
  description is "Incident: <note>" for a non-empty note and "Crying incident" for a
  missing or an empty one. Nothing else changes but the two id sequences.
\<close>

theorem post_api_incident_spec:
  assumes "pg_date_ok date"
    and "pg_text_ok (case note of None \<Rightarrow> [] | Some n \<Rightarrow> n)"
    and "has_next (incidents_seq s)"
    and "has_next (transactions_seq s)"
  shows "post_api_incident s date note =
     (Inr Success,
      s\<lparr>incidents := incidents s @
           [\<lparr>inc_id = incidents_seq s + 1, inc_date = date,
             inc_note = (case note of None \<Rightarrow> [] | Some n \<Rightarrow> n)\<rparr>],
        incidents_seq := incidents_seq s + 1,
        transactions := transactions s @
           [\<lparr>tx_id = transactions_seq s + 1, tx_date = date, tx_type = ''incident'',
             tx_amount = - 50,
             tx_description =
               (if note = None \<or> note = Some [] then ''Crying incident''
                else ''Incident: '' @ the note)\<rparr>],
        transactions_seq := transactions_seq s + 1\<rparr>)"
  using assms
  by (cases "note") (simp_all add: post_api_incident_def insert_incident_def insert_transaction_def)

theorem post_api_incident_spec_witness:
  "pg_date_ok (days_from_civil 2026 2 2) \<and> pg_text_ok ''bedtime''
   \<and> has_next (incidents_seq empty_db) \<and> has_next (transactions_seq empty_db)
   \<and> post_api_incident empty_db (days_from_civil 2026 2 2) (Some ''bedtime'') =
     (Inr Success,
      \<lparr>piano_sessions = [], weekly_awards = [], tests = [],
       incidents = [\<lparr>inc_id = 1, inc_date = days_from_civil 2026 2 2, inc_note = ''bedtime''\<rparr>],
       transactions =
         [\<lparr>tx_id = 1, tx_date = days_from_civil 2026 2 2, tx_type = ''incident'',
           tx_amount = - 50, tx_description = ''Incident: bedtime''\<rparr>],
       piano_sessions_seq = 0, weekly_awards_seq = 0, tests_seq = 0, incidents_seq = 1,
       transactions_seq = 1\<rparr>)"
proof -
  have h1: "pg_date_ok (days_from_civil 2026 2 2)" by code_simp
  have h2: "pg_text_ok (case Some ''bedtime'' of None \<Rightarrow> [] | Some n \<Rightarrow> n)" by code_simp
  have h3: "has_next (incidents_seq empty_db)" by code_simp
  have h4: "has_next (transactions_seq empty_db)" by code_simp
  show ?thesis
    using h1 h2 h3 h4 post_api_incident_spec [OF h1 h2 h3 h4]
    by (simp add: empty_db_def)
qed

text \<open>
  C6 as stated has the row and the transaction inserted, and success answered, for
  every incident. A note that holds the character NUL is refused by the first \<^verbatim>\<open>INSERT\<close>:
  the route answers 500 and stores nothing. So is a date that PostgreSQL does not read
  (here \<^verbatim>\<open>'0000-12-31'\<close>, the day before 0001-01-01, and \<^verbatim>\<open>'+010000-01-01'\<close>, the day
  after 9999-12-31), and every incident once the sequence of \<^verbatim>\<open>incidents\<close> has issued
  its last id. Once the sequence of \<^verbatim>\<open>transactions\<close> has, the route
  stores the incident row, and then answers 500 without a transaction.
\<close>

theorem incident_not_stored:
  "post_api_incident empty_db (days_from_civil 2026 2 2) (Some [CHR ''a'', CHR 0x00, CHR ''b'']) =
     (Inl StorageFailure, empty_db)
   \<and> post_api_incident empty_db (days_from_civil 0 12 31) None = (Inl StorageFailure, empty_db)
   \<and> post_api_incident empty_db (days_from_civil 10000 1 1) None = (Inl StorageFailure, empty_db)
   \<and> fst (post_api_incident (empty_db\<lparr>incidents_seq := 2147483647\<rparr>)
        (days_from_civil 2026 2 2) None) = Inl StorageFailure
   \<and> incidents (snd (post_api_incident (empty_db\<lparr>incidents_seq := 2147483647\<rparr>)
        (days_from_civil 2026 2 2) None)) = []
   \<and> transactions (snd (post_api_incident (empty_db\<lparr>incidents_seq := 2147483647\<rparr>)
        (days_from_civil 2026 2 2) None)) = []
   \<and> fst (post_api_incident (empty_db\<lparr>transactions_seq := 2147483647\<rparr>)
        (days_from_civil 2026 2 2) None) = Inl StorageFailure
   \<and> incidents (snd (post_api_incident (empty_db\<lparr>transactions_seq := 2147483647\<rparr>)
        (days_from_civil 2026 2 2) None)) =
       [\<lparr>inc_id = 1, inc_date = days_from_civil 2026 2 2, inc_note = []\<rparr>]
   \<and> transactions (snd (post_api_incident (empty_db\<lparr>transactions_seq := 2147483647\<rparr>)
        (days_from_civil 2026 2 2) None)) = []"
proof -
  have d: "pg_date_ok (days_from_civil 2026 2 2)" by code_simp
  have n: "pg_text_ok []" by code_simp
  have full: "\<not> has_next 2147483647" by (simp add: has_next_def)
  have free: "has_next 0" by code_simp
  have 1: "post_api_incident empty_db (days_from_civil 2026 2 2)
      (Some [CHR ''a'', CHR 0x00, CHR ''b'']) = (Inl StorageFailure, empty_db)"
    by code_simp
  have 2: "post_api_incident empty_db (days_from_civil 10000 1 1) None =
      (Inl StorageFailure, empty_db)"
    "post_api_incident empty_db (days_from_civil 0 12 31) None =
      (Inl StorageFailure, empty_db)"
    by code_simp+
  have 3: "post_api_incident (empty_db\<lparr>incidents_seq := 2147483647\<rparr>)
      (days_from_civil 2026 2 2) None =
      (Inl StorageFailure, empty_db\<lparr>incidents_seq := 2147483647\<rparr>)"
    using full by (simp add: post_api_incident_def)
  have 4: "post_api_incident (empty_db\<lparr>transactions_seq := 2147483647\<rparr>)
      (days_from_civil 2026 2 2) None =
      (Inl StorageFailure,
       insert_incident (days_from_civil 2026 2 2) [] (empty_db\<lparr>transactions_seq := 2147483647\<rparr>))"
    using d n full free by (simp add: post_api_incident_def insert_incident_def empty_db_def)
  show ?thesis
    unfolding 1 2 3 4 by (simp add: insert_incident_def empty_db_def)
qed

section \<open>The balance\<close>

text \<open>
  C7. The balance of read-all is the sum of the amounts of the transaction rows there
  are, 0 when there are none. It is computed by the read: the state has no field for
  it, and the read returns the state as it got it, so a second read answers what the
  first did. After a reset the five tables are empty and the balance read is 0.
\<close>

theorem balance_spec:
  "r_balance (fst (get_api_data s)) = sum_list (map tx_amount (transactions s))
   \<and> r_balance (fst (get_api_data (s\<lparr>transactions := []\<rparr>))) = 0
   \<and> snd (get_api_data s) = s
   \<and> get_api_data (snd (get_api_data s)) = get_api_data s
   \<and> fst (post_api_reset s) = Inr Success
   \<and> piano_sessions (snd (post_api_reset s)) = []
   \<and> weekly_awards (snd (post_api_reset s)) = []
   \<and> tests (snd (post_api_reset s)) = []
   \<and> incidents (snd (post_api_reset s)) = []
   \<and> transactions (snd (post_api_reset s)) = []
   \<and> r_balance (fst (get_api_data (snd (post_api_reset s)))) = 0"
  by (simp add: get_api_data_def post_api_reset_def)

section \<open>Deleting a transaction that is not a piano reward\<close>

text \<open>
  C9. Deleting an existing transaction that is not a positive piano transaction (a test
  reward, an incident penalty) answers success and removes that one row of
  \<^verbatim>\<open>transactions\<close>: the rows before and after it stay, in their order, and the other four
  tables and the sequences are as they were. The ids of the table are distinct (the
  primary key; \<open>run_transaction_ids_distinct\<close> shows it of every state the server
  reaches), and the id is one the column can hold.
\<close>

theorem delete_other_frame:
  assumes "tx \<in> set (transactions s)" and "tx_id tx = tid"
    and "distinct (map tx_id (transactions s))"
    and "int4 (int tid)"
    and "\<not> (tx_type tx = ''piano'' \<and> 0 < tx_amount tx)"
  shows "\<exists>before after. transactions s = before @ tx # after \<and>
           delete_api_transaction tz s tid = (Inr Success, s\<lparr>transactions := before @ after\<rparr>)"
proof -
  from filter_distinct_id [OF assms(3) assms(1)] obtain before after where
    xs: "transactions s = before @ tx # after"
    and sel: "filter (\<lambda>t. tx_id t = tx_id tx) (transactions s) = [tx]"
    and del: "filter (\<lambda>t. tx_id t \<noteq> tx_id tx) (transactions s) = before @ after"
    by blast
  have "delete_api_transaction tz s tid = (Inr Success, s\<lparr>transactions := before @ after\<rparr>)"
    using assms(2,4,5) sel del by (auto simp: delete_api_transaction_def)
  with xs show ?thesis by blast
qed

theorem delete_other_frame_witness:
  "\<exists>before after.
     transactions (run 0 [PostIncident 7 None, PostTest 5 ''Math'' (Num 95) (Num 100)]) =
       before @ \<lparr>tx_id = 1, tx_date = 7, tx_type = ''incident'', tx_amount = - 50,
                 tx_description = ''Crying incident''\<rparr> # after \<and>
     delete_api_transaction 0 (run 0 [PostIncident 7 None, PostTest 5 ''Math'' (Num 95) (Num 100)]) 1 =
       (Inr Success,
        (run 0 [PostIncident 7 None, PostTest 5 ''Math'' (Num 95) (Num 100)])\<lparr>transactions := before @ after\<rparr>)"
proof -
  let ?s = "run 0 [PostIncident 7 None, PostTest 5 ''Math'' (Num 95) (Num 100)]"
  let ?tx = "\<lparr>tx_id = 1, tx_date = 7, tx_type = ''incident'', tx_amount = - 50,
                 tx_description = ''Crying incident''\<rparr>"
  have tr: "transactions ?s =
      [?tx, \<lparr>tx_id = 2, tx_date = 5, tx_type = ''test'', tx_amount = 100,
             tx_description = ''Math test: 95/100 (95%)''\<rparr>]"
    by code_simp
  have 1: "?tx \<in> set (transactions ?s)" by (simp add: tr)
  have 2: "tx_id ?tx = 1" by simp
  have 3: "distinct (map tx_id (transactions ?s))" by (simp add: tr)
  have 4: "int4 (int 1)" by (simp add: int4_def)
  have 5: "\<not> (tx_type ?tx = ''piano'' \<and> 0 < tx_amount ?tx)" by simp
  show ?thesis using delete_other_frame [OF 1 2 3 4 5, of 0] by simp
qed

section \<open>Reading all data\<close>

lemma order_by_desc_sorted: "sorted_wrt (\<lambda>a b. k b \<le> k a) (order_by_desc k rows)"
proof -
  have "sorted (map k (sort_key k (rev rows)))" by (rule sorted_sort_key)
  then have "sorted_wrt (\<lambda>a b. k a \<le> k b) (sort_key k (rev rows))"
    by (simp add: sorted_wrt_map)
  then show ?thesis
    by (simp add: order_by_desc_def sorted_wrt_rev)
qed

lemma order_by_desc_mset: "mset (order_by_desc k rows) = mset rows"
  by (simp add: order_by_desc_def)

text \<open>Rows of one date come in the order of their ids.\<close>

lemma order_by_desc_ties:
  "order_by_desc ps_date
     [\<lparr>ps_id = 1, ps_date = 5, ps_minutes = 10\<rparr>, \<lparr>ps_id = 2, ps_date = 5, ps_minutes = 20\<rparr>,
      \<lparr>ps_id = 3, ps_date = 6, ps_minutes = 30\<rparr>, \<lparr>ps_id = 4, ps_date = 5, ps_minutes = 40\<rparr>] =
     [\<lparr>ps_id = 3, ps_date = 6, ps_minutes = 30\<rparr>, \<lparr>ps_id = 1, ps_date = 5, ps_minutes = 10\<rparr>,
      \<lparr>ps_id = 2, ps_date = 5, ps_minutes = 20\<rparr>, \<lparr>ps_id = 4, ps_date = 5, ps_minutes = 40\<rparr>]"
  by code_simp

lemma prod_le_iff: "((a::int, b::nat) \<le> (c, d)) = (a < c \<or> (a = c \<and> b \<le> d))"
  by (auto simp: less_eq_prod_def)

text \<open>
  C8 (as amended). Read-all returns the balance (the sum of the amounts) and the full
  contents of the five tables: \<^verbatim>\<open>piano_sessions\<close>, \<^verbatim>\<open>tests\<close> and \<^verbatim>\<open>incidents\<close> by falling
  date, \<^verbatim>\<open>transactions\<close> by falling date and, within a date, by falling id, and
  \<^verbatim>\<open>weekly_awards\<close> as the table holds them: its query has no \<^verbatim>\<open>ORDER BY\<close> (and the table
  no \<^verbatim>\<open>date\<close> column).
\<close>

theorem get_api_data_spec:
  "r_balance (fst (get_api_data s)) = sum_list (map tx_amount (transactions s))
   \<and> mset (r_pianoSessions (fst (get_api_data s))) = mset (piano_sessions s)
   \<and> sorted_wrt (\<lambda>a b. ps_date b \<le> ps_date a) (r_pianoSessions (fst (get_api_data s)))
   \<and> r_weeklyAwards (fst (get_api_data s)) = weekly_awards s
   \<and> mset (r_tests (fst (get_api_data s))) = mset (tests s)
   \<and> sorted_wrt (\<lambda>a b. test_date b \<le> test_date a) (r_tests (fst (get_api_data s)))
   \<and> mset (r_incidents (fst (get_api_data s))) = mset (incidents s)
   \<and> sorted_wrt (\<lambda>a b. inc_date b \<le> inc_date a) (r_incidents (fst (get_api_data s)))
   \<and> mset (r_transactions (fst (get_api_data s))) = mset (transactions s)
   \<and> sorted_wrt (\<lambda>a b. tx_date b < tx_date a \<or> (tx_date b = tx_date a \<and> tx_id b \<le> tx_id a))
        (r_transactions (fst (get_api_data s)))"
proof -
  have "sorted_wrt (\<lambda>a b. (tx_date b, tx_id b) \<le> (tx_date a, tx_id a))
          (order_by_desc (\<lambda>t. (tx_date t, tx_id t)) (transactions s))"
    by (rule order_by_desc_sorted)
  then have "sorted_wrt (\<lambda>a b. tx_date b < tx_date a \<or> (tx_date b = tx_date a \<and> tx_id b \<le> tx_id a))
          (order_by_desc (\<lambda>t. (tx_date t, tx_id t)) (transactions s))"
    by (rule sorted_wrt_mono_rel [rotated]) (auto simp: prod_le_iff)
  then show ?thesis
    by (simp add: get_api_data_def order_by_desc_sorted order_by_desc_mset)
qed

text \<open>
  C8 as stated asks for every collection by falling date. After the goal is met in the
  week of 2026-02-02 and then in the week of 2026-02-09, the read returns the two
  awards in that (rising) order.
\<close>

theorem weekly_awards_unordered:
  "r_weeklyAwards (fst (get_api_data
      (run 0 [PostPiano (days_from_civil 2026 2 2) 150, PostPiano (days_from_civil 2026 2 9) 150]))) =
     [\<lparr>wa_id = 1, wa_week_start = days_from_civil 2026 2 2\<rparr>,
      \<lparr>wa_id = 2, wa_week_start = days_from_civil 2026 2 9\<rparr>]
   \<and> \<not> sorted_wrt (\<lambda>a b. wa_week_start b \<le> wa_week_start a)
        (r_weeklyAwards (fst (get_api_data
          (run 0 [PostPiano (days_from_civil 2026 2 2) 150, PostPiano (days_from_civil 2026 2 9) 150]))))"
  by code_simp

section \<open>What getWeekStart computes\<close>

text \<open>
  \<^verbatim>\<open>setDate\<close> to \<^verbatim>\<open>getDate()\<close> plus \<open>n\<close> moves the time value by \<open>n\<close> days, in every zone; so
  \<^verbatim>\<open>getWeekStart\<close> moves the UTC day of its argument back by what \<^verbatim>\<open>getDay\<close>, the local
  weekday, says. For a \<^verbatim>\<open>'YYYY-MM-DD'\<close> string the two days agree when the zone is UTC or
  east of it; for the \<^verbatim>\<open>Date\<close> of a \<^verbatim>\<open>DATE\<close> column when it is UTC or west of it.
\<close>

lemma setDate_getDate: "setDate tz t (getDate tz t + n) = t + n * msPerDay"
proof -
  define lt where "lt = LocalTime tz t"
  have split: "Day lt * msPerDay + TimeWithinDay lt = lt"
    by (simp add: Day_def TimeWithinDay_def)
  have "setDate tz t (getDate tz t + n) = UTC tz ((Day lt + n) * msPerDay + TimeWithinDay lt)"
    by (simp add: setDate_def getDate_def Let_def lt_def)
  also have "(Day lt + n) * msPerDay + TimeWithinDay lt = lt + n * msPerDay"
    using split by (simp add: distrib_right)
  also have "UTC tz (lt + n * msPerDay) = t + n * msPerDay"
    by (simp add: UTC_def LocalTime_def lt_def)
  finally show ?thesis .
qed

lemma Day_add_days: "Day (t + n * msPerDay) = Day t + n"
  by (simp add: Day_def msPerDay_def)

lemma getWeekStart_eq:
  "getWeekStart tz x =
     Day (new_Date x) + (if getDay tz (new_Date x) = 0 then - 6 else 1) - getDay tz (new_Date x)"
proof -
  define t where "t = new_Date x"
  define w where "w = getDay tz t"
  have "getWeekStart tz x = toISODate (setDate tz t (getDate tz t - w + (if w = 0 then - 6 else 1)))"
    by (simp add: getWeekStart_def Let_def t_def w_def)
  also have "getDate tz t - w + (if w = 0 then - 6 else 1) = getDate tz t + ((if w = 0 then - 6 else 1) - w)"
    by simp
  also have "toISODate (setDate tz t (getDate tz t + ((if w = 0 then - 6 else 1) - w)))
      = Day t + ((if w = 0 then - 6 else 1) - w)"
    by (simp only: setDate_getDate toISODate_def Day_add_days)
  finally show ?thesis by (simp add: t_def w_def)
qed

lemma getDay_range: "0 \<le> getDay tz t \<and> getDay tz t < 7"
  by (simp add: getDay_def WeekDay_def)

lemma week_end_eq:
  "toISODate (setDate tz (new_Date (DateStr ws)) (getDate tz (new_Date (DateStr ws)) + 6)) = ws + 6"
  by (simp only: setDate_getDate toISODate_def Day_add_days) (simp add: Day_def msPerDay_def)

lemma getWeekStart_str:
  "getWeekStart tz (DateStr d) =
     d + (if (d + tz * 60000 div msPerDay + 4) mod 7 = 0 then - 6 else 1)
       - (d + tz * 60000 div msPerDay + 4) mod 7"
proof -
  have 1: "Day (new_Date (DateStr d)) = d" by (simp add: Day_def msPerDay_def)
  have 2: "getDay tz (new_Date (DateStr d)) = (d + tz * 60000 div msPerDay + 4) mod 7"
    by (simp add: getDay_def WeekDay_def Day_def LocalTime_def msPerDay_def)
  show ?thesis by (simp only: getWeekStart_eq 1 2)
qed

lemma getWeekStart_pg:
  "getWeekStart tz (pg_date tz d) =
     d + (- (tz * 60000)) div msPerDay + (if (d + 4) mod 7 = 0 then - 6 else 1) - (d + 4) mod 7"
proof -
  have 1: "Day (new_Date (pg_date tz d)) = d + (- (tz * 60000)) div msPerDay"
    by (simp add: Day_def pg_date_def UTC_def msPerDay_def)
  have 2: "getDay tz (new_Date (pg_date tz d)) = (d + 4) mod 7"
    by (simp add: getDay_def WeekDay_def Day_def LocalTime_def pg_date_def UTC_def msPerDay_def)
  show ?thesis by (simp only: getWeekStart_eq 1 2)
qed

lemma tz_east: "0 \<le> tz \<Longrightarrow> tz < 1440 \<Longrightarrow> tz * 60000 div msPerDay = 0"
  by (simp add: msPerDay_def)

lemma tz_west: "- 1440 < tz \<Longrightarrow> tz \<le> 0 \<Longrightarrow> (- (tz * 60000)) div msPerDay = 0"
  by (simp add: msPerDay_def)

lemma mod7_round: "((x::int) - x mod 7 + 1) mod 7 = 1"
proof -
  have "x - x mod 7 + 1 = 7 * (x div 7) + 1" by (simp add: minus_mod_eq_mult_div)
  then show ?thesis by simp
qed

lemma mod7_sunday: "(x::int) mod 7 = 0 \<Longrightarrow> (x - 6) mod 7 = 1"
proof -
  assume "x mod 7 = 0"
  moreover have "(x - 6) mod 7 = (x mod 7 - 6) mod 7" by (simp only: mod_diff_left_eq)
  ultimately show ?thesis by simp
qed

text \<open>From a day of weekday \<open>x mod 7\<close> (Sunday 0) the step of \<^verbatim>\<open>getWeekStart\<close> leads to
  weekday 1 and goes back by at most six days.\<close>

lemma monday_of:
  fixes x :: int
  defines "c \<equiv> (if x mod 7 = 0 then - 6 else 1) - x mod 7"
  shows "(x + c) mod 7 = 1" and "c \<le> 0" and "- 6 \<le> c"
proof -
  have b: "0 \<le> x mod 7" "x mod 7 < 7" by simp_all
  show "(x + c) mod 7 = 1"
  proof (cases "x mod 7 = 0")
    case True
    then show ?thesis using mod7_sunday [of x] by (simp add: c_def)
  next
    case False
    then show ?thesis using mod7_round [of x] by (simp add: c_def algebra_simps)
  qed
  show "c \<le> 0" using b by (auto simp: c_def)
  show "- 6 \<le> c" using b by (auto simp: c_def)
qed

lemma monday_idem:
  fixes d k :: int
  defines "r \<equiv> d + (if (d + k + 4) mod 7 = 0 then - 6 else 1) - (d + k + 4) mod 7"
  shows "r + (if (r + k + 4) mod 7 = 0 then - 6 else 1) - (r + k + 4) mod 7 = r"
proof -
  have "r + k + 4 = (d + k + 4) + ((if (d + k + 4) mod 7 = 0 then - 6 else 1) - (d + k + 4) mod 7)"
    by (simp add: r_def)
  then have "(r + k + 4) mod 7 = 1" by (simp only: monday_of(1))
  then show ?thesis by simp
qed

lemma monday_closed:
  "(d::int) + (if (d + 4) mod 7 = 0 then - 6 else 1) - (d + 4) mod 7 = d - (d + 3) mod 7"
proof -
  define v where "v = (d + 3) mod 7"
  have b: "0 \<le> v" "v < 7" by (simp_all add: v_def)
  have "(d + 4) mod 7 = (v + 1) mod 7"
  proof -
    have "d + 4 = (d + 3) + 1" by simp
    then show ?thesis unfolding v_def by (simp only: mod_add_left_eq)
  qed
  also have "\<dots> = (if v = 6 then 0 else v + 1)" using b by simp
  finally have w: "(d + 4) mod 7 = (if v = 6 then 0 else v + 1)" .
  show ?thesis unfolding w v_def [symmetric] using b by auto
qed

lemma WeekDay_of_day: "WeekDay (new_Date (DateStr r)) = (r + 4) mod 7"
  by (simp add: WeekDay_def Day_def msPerDay_def)

lemma monday_on_or_before:
  fixes d :: int
  defines "r \<equiv> d + (if (d + 4) mod 7 = 0 then - 6 else 1) - (d + 4) mod 7"
  shows "WeekDay (new_Date (DateStr r)) = 1 \<and> r \<le> d \<and> d \<le> r + 6"
proof -
  define c where "c = (if (d + 4) mod 7 = 0 then - 6 else 1) - (d + 4) mod 7"
  have r: "r = d + c" "r + 4 = (d + 4) + c" by (simp_all add: r_def c_def)
  from monday_of [of "d + 4"]
  have m: "((d + 4) + c) mod 7 = 1" and c: "c \<le> 0" "- 6 \<le> c" by (simp_all add: c_def)
  have "WeekDay (new_Date (DateStr r)) = (r + 4) mod 7" by (rule WeekDay_of_day)
  also have "\<dots> = 1" using m by (simp only: r(2))
  finally show ?thesis using c by (simp add: r(1))
qed

lemma getWeekStart_str_east:
  assumes "0 \<le> tz" "tz < 1440"
  shows "WeekDay (new_Date (DateStr (getWeekStart tz (DateStr d)))) = 1
         \<and> getWeekStart tz (DateStr d) \<le> d \<and> d \<le> getWeekStart tz (DateStr d) + 6"
proof -
  have "getWeekStart tz (DateStr d) = d + (if (d + 4) mod 7 = 0 then - 6 else 1) - (d + 4) mod 7"
    by (simp add: getWeekStart_str tz_east [OF assms])
  then show ?thesis by (simp only: monday_on_or_before)
qed

lemma getWeekStart_pg_west:
  assumes "- 1440 < tz" "tz \<le> 0"
  shows "WeekDay (new_Date (DateStr (getWeekStart tz (pg_date tz d)))) = 1
         \<and> getWeekStart tz (pg_date tz d) \<le> d \<and> d \<le> getWeekStart tz (pg_date tz d) + 6"
proof -
  have "getWeekStart tz (pg_date tz d) = d + (if (d + 4) mod 7 = 0 then - 6 else 1) - (d + 4) mod 7"
    by (simp add: getWeekStart_pg tz_west [OF assms])
  then show ?thesis by (simp only: monday_on_or_before)
qed

lemma getWeekStart_utc:
  "getWeekStart 0 (DateStr d) = d - (d + 3) mod 7"
  "getWeekStart 0 (pg_date 0 d) = d - (d + 3) mod 7"
  using monday_closed [of d] by (simp_all add: getWeekStart_str getWeekStart_pg msPerDay_def)

lemma getWeekStart_idem:
  "getWeekStart tz (DateStr (getWeekStart tz (DateStr d))) = getWeekStart tz (DateStr d)"
  unfolding getWeekStart_str by (rule monday_idem)

lemma tz_west_neg: "- 1440 \<le> tz \<Longrightarrow> tz < 0 \<Longrightarrow> tz * 60000 div msPerDay = - 1"
  by (simp add: msPerDay_def)

lemma tz_east_pos: "0 < tz \<Longrightarrow> tz \<le> 1440 \<Longrightarrow> (- (tz * 60000)) div msPerDay = - 1"
  by (simp add: msPerDay_def)

lemma mod7_next: "(x::int) mod 7 = 1 \<Longrightarrow> (x + 1) mod 7 = 2"
proof -
  assume "x mod 7 = 1"
  moreover have "(x + 1) mod 7 = (x mod 7 + 1) mod 7" by (simp only: mod_add_left_eq)
  ultimately show ?thesis by simp
qed

lemma mod7_prev: "(x::int) mod 7 = 1 \<Longrightarrow> (x - 1) mod 7 = 0"
proof -
  assume "x mod 7 = 1"
  moreover have "(x - 1) mod 7 = (x mod 7 - 1) mod 7" by (simp only: mod_diff_left_eq)
  ultimately show ?thesis by simp
qed

text \<open>West of UTC the week start of a \<^verbatim>\<open>'YYYY-MM-DD'\<close> string is always a Tuesday; east of
  UTC the week start of the \<^verbatim>\<open>Date\<close> of a \<^verbatim>\<open>DATE\<close> column is always a Sunday.\<close>

lemma getWeekStart_str_west:
  assumes "- 1440 \<le> tz" "tz < 0"
  shows "WeekDay (new_Date (DateStr (getWeekStart tz (DateStr d)))) = 2"
proof -
  define c where "c = (if (d + 3) mod 7 = 0 then - 6 else 1) - (d + 3) mod 7"
  have k: "d + tz * 60000 div msPerDay + 4 = d + 3" by (simp add: tz_west_neg [OF assms])
  have "getWeekStart tz (DateStr d) = d + c"
    unfolding getWeekStart_str k by (simp add: c_def)
  moreover have "((d + 3) + c) mod 7 = 1" unfolding c_def by (rule monday_of(1))
  then have "((d + 3) + c + 1) mod 7 = 2" by (rule mod7_next)
  moreover have "(d + 3) + c + 1 = (d + c) + 4" by simp
  ultimately show ?thesis by (simp only: WeekDay_of_day)
qed

lemma getWeekStart_pg_east:
  assumes "0 < tz" "tz \<le> 1440"
  shows "WeekDay (new_Date (DateStr (getWeekStart tz (pg_date tz d)))) = 0"
proof -
  define c where "c = (if (d + 4) mod 7 = 0 then - 6 else 1) - (d + 4) mod 7"
  have "getWeekStart tz (pg_date tz d) = d + c - 1"
    by (simp add: getWeekStart_pg tz_east_pos [OF assms] c_def)
  moreover have "((d + 4) + c) mod 7 = 1" unfolding c_def by (rule monday_of(1))
  then have "((d + 4) + c - 1) mod 7 = 0" by (rule mod7_prev)
  moreover have "(d + 4) + c - 1 = (d + c - 1) + 4" by simp
  ultimately show ?thesis by (simp only: WeekDay_of_day)
qed

text \<open>
  C10. Applied to its own result \<^verbatim>\<open>getWeekStart\<close> returns it, in every zone
  (\<open>getWeekStart_idem\<close>), and in a process in UTC its result is the Monday on or before
  the day (\<open>getWeekStart_str_east\<close>, \<open>getWeekStart_pg_west\<close>). But the result is not always
  a Monday: west of UTC it is a Tuesday for every date string (\<open>getWeekStart_str_west\<close>),
  east of UTC a Sunday for every row's date (\<open>getWeekStart_pg_east\<close>). Five hours west of UTC, \<^verbatim>\<open>getWeekStart('2026-02-02')\<close>, of a Monday, is
  \<^verbatim>\<open>'2026-01-27'\<close>, a Tuesday: the UTC midnight that the string denotes is Sunday evening
  for \<^verbatim>\<open>getDay\<close> and \<^verbatim>\<open>setDate\<close>, and \<^verbatim>\<open>toISOString\<close> reads the local Monday evening
  they arrive at as the UTC Tuesday. One hour east of UTC, the key that the deletion
  path computes from the \<^verbatim>\<open>Date\<close> of the row of 2026-02-02 is \<^verbatim>\<open>'2026-02-01'\<close>, a Sunday.
  (\<open>WeekDay\<close> counts from Sunday, 0.)
\<close>

theorem getWeekStart_not_monday:
  "WeekDay (new_Date (DateStr (days_from_civil 2026 2 2))) = 1
   \<and> getWeekStart (- 300) (DateStr (days_from_civil 2026 2 2)) = days_from_civil 2026 1 27
   \<and> WeekDay (new_Date (DateStr (days_from_civil 2026 1 27))) = 2
   \<and> getWeekStart 60 (pg_date 60 (days_from_civil 2026 2 2)) = days_from_civil 2026 2 1
   \<and> WeekDay (new_Date (DateStr (days_from_civil 2026 2 1))) = 0"
  by code_simp

section \<open>The piano rule\<close>

text \<open>What the route does, for a request whose date lies in the seven days from
  \<^verbatim>\<open>getWeekStart(date)\<close>; and that, with the process in UTC or east of it, this is the week
  from the Monday on or before the date. The first \<^verbatim>\<open>INSERT\<close> is refused for a date or for
  minutes that the table does not accept. The \<^verbatim>\<open>SELECT\<close>s after it are refused when the
  week start or the week end is not a date that PostgreSQL reads, as the week end of
  the last days of the year 9999 is: then the session is stored and the answer is 500.\<close>

lemma post_api_piano_refused:
  "\<not> (pg_date_ok date \<and> int4 minutes \<and> has_next (piano_sessions_seq s)) \<Longrightarrow>
   post_api_piano tz s date minutes = (Inl StorageFailure, s)"
  by (auto simp: post_api_piano_def)

lemma post_api_piano_week:
  fixes tz :: int and s :: db and date :: day and minutes :: int
  defines "ws \<equiv> getWeekStart tz (DateStr date)"
  defines "wm \<equiv> sum_list (map ps_minutes
             (filter (\<lambda>p. ws \<le> ps_date p \<and> ps_date p \<le> ws + 6) (piano_sessions s))) + minutes"
  defines "s1 \<equiv> s\<lparr>piano_sessions := piano_sessions s @
             [\<lparr>ps_id = piano_sessions_seq s + 1, ps_date = date, ps_minutes = minutes\<rparr>],
           piano_sessions_seq := piano_sessions_seq s + 1\<rparr>"
  defines "s2 \<equiv> s1\<lparr>weekly_awards := weekly_awards s @
               [\<lparr>wa_id = weekly_awards_seq s + 1, wa_week_start = ws\<rparr>],
            weekly_awards_seq := weekly_awards_seq s + 1\<rparr>"
  assumes "pg_date_ok date" and "int4 minutes" and "has_next (piano_sessions_seq s)"
    and "ws \<le> date" and "date \<le> ws + 6"
  shows "post_api_piano tz s date minutes =
     (if pg_date_ok ws \<and> pg_date_ok (ws + 6) then
        if 150 \<le> wm \<and> filter (\<lambda>a. wa_week_start a = ws) (weekly_awards s) = [] then
          if has_next (weekly_awards_seq s) then
            if has_next (transactions_seq s) then
              (Inr \<lparr>rp_awarded = True, rp_weekMinutes = wm\<rparr>,
               s2\<lparr>transactions := transactions s @
                     [\<lparr>tx_id = transactions_seq s + 1, tx_date = date, tx_type = ''piano'',
                       tx_amount = 50,
                       tx_description = ''Weekly piano goal met! ('' @ show_int wm @ '' min)''\<rparr>],
                  transactions_seq := transactions_seq s + 1\<rparr>)
            else (Inl StorageFailure, s2)
          else (Inl StorageFailure, s1)
        else (Inr \<lparr>rp_awarded = False, rp_weekMinutes = wm\<rparr>, s1)
      else (Inl StorageFailure, s1))"
  using assms(5-9)
  unfolding post_api_piano_def week_end_eq Let_def ws_def [symmetric]
  by (simp add: insert_piano_session_def insert_weekly_award_def insert_transaction_def
      wm_def s1_def s2_def)

text \<open>The first day that PostgreSQL reads, 0001-01-01, is a Monday: the Monday on or
  before a date that it reads is one, too.\<close>

lemma monday_in_range:
  assumes "pg_date_ok d"
  shows "pg_date_ok (d - (d + 3) mod 7)"
proof -
  have lo: "days_from_civil 1 1 1 = - 719162" and hi: "days_from_civil 9999 12 31 = 2932896"
    by code_simp+
  from assms have d: "- 719162 \<le> d" "d \<le> 2932896" by (simp_all add: pg_date_ok_def lo hi)
  have "d - (d + 3) mod 7 = 7 * ((d + 3) div 7) - 3"
    using minus_mod_eq_mult_div [of "d + 3" 7] by simp
  moreover have "(- 719159) div 7 \<le> (d + 3) div 7"
    by (rule zdiv_mono1) (use d in simp_all)
  then have "- 102737 \<le> (d + 3) div 7" by simp
  moreover have "0 \<le> (d + 3) mod 7" by simp
  ultimately show ?thesis using d by (simp add: pg_date_ok_def lo hi)
qed

lemma post_api_piano_east:
  fixes tz :: int and s :: db and date :: day and minutes :: int
  defines "ws \<equiv> getWeekStart tz (DateStr date)"
  defines "wm \<equiv> sum_list (map ps_minutes
             (filter (\<lambda>p. ws \<le> ps_date p \<and> ps_date p \<le> ws + 6) (piano_sessions s))) + minutes"
  defines "s1 \<equiv> s\<lparr>piano_sessions := piano_sessions s @
             [\<lparr>ps_id = piano_sessions_seq s + 1, ps_date = date, ps_minutes = minutes\<rparr>],
           piano_sessions_seq := piano_sessions_seq s + 1\<rparr>"
  assumes "0 \<le> tz" and "tz < 1440"
    and "pg_date_ok date" and "int4 minutes" and "pg_date_ok (ws + 6)"
    and "has_next (piano_sessions_seq s)" and "has_next (weekly_awards_seq s)"
    and "has_next (transactions_seq s)"
  shows "WeekDay (new_Date (DateStr ws)) = 1 \<and> ws \<le> date \<and> date \<le> ws + 6
   \<and> post_api_piano tz s date minutes =
     (if 150 \<le> wm \<and> filter (\<lambda>a. wa_week_start a = ws) (weekly_awards s) = [] then
        (Inr \<lparr>rp_awarded = True, rp_weekMinutes = wm\<rparr>,
         s1\<lparr>weekly_awards := weekly_awards s @
               [\<lparr>wa_id = weekly_awards_seq s + 1, wa_week_start = ws\<rparr>],
            weekly_awards_seq := weekly_awards_seq s + 1,
            transactions := transactions s @
               [\<lparr>tx_id = transactions_seq s + 1, tx_date = date, tx_type = ''piano'',
                 tx_amount = 50,
                 tx_description = ''Weekly piano goal met! ('' @ show_int wm @ '' min)''\<rparr>],
            transactions_seq := transactions_seq s + 1\<rparr>)
      else (Inr \<lparr>rp_awarded = False, rp_weekMinutes = wm\<rparr>, s1))"
proof -
  from getWeekStart_str_east [OF assms(4,5), of date]
  have m: "WeekDay (new_Date (DateStr ws)) = 1" "ws \<le> date" "date \<le> ws + 6"
    by (simp_all add: ws_def)
  have "ws = date - (date + 3) mod 7"
    using monday_closed [of date] by (simp add: ws_def getWeekStart_str tz_east [OF assms(4,5)])
  then have ok: "pg_date_ok ws" using monday_in_range [OF assms(6)] by simp
  from post_api_piano_week [where s = s, OF assms(6,7,9) m(2,3) [unfolded ws_def]] m ok assms(8,10,11)
  show ?thesis by (simp add: ws_def wm_def s1_def)
qed

text \<open>The last week of the year 9999 ends in the year 10000. In a process in UTC, 150
  minutes on 9999-12-31 are stored and answered with 500.\<close>

lemma post_api_piano_last_week:
  "post_api_piano 0 empty_db (days_from_civil 9999 12 31) 150 =
     (Inl StorageFailure,
      \<lparr>piano_sessions = [\<lparr>ps_id = 1, ps_date = days_from_civil 9999 12 31, ps_minutes = 150\<rparr>],
       weekly_awards = [], tests = [], incidents = [], transactions = [],
       piano_sessions_seq = 1, weekly_awards_seq = 0, tests_seq = 0, incidents_seq = 0,
       transactions_seq = 0\<rparr>)"
  by code_simp

text \<open>
  C1. The piano rule is to store the session, to take the Monday on or before the date
  as the week start, to report the minutes of the sessions of that week, and to award
  (one award, one +50 transaction) exactly when they reach 150 and the week has no
  award yet. With the process in UTC or east of it the route does that
  (\<open>post_api_piano_east\<close>), for a request that the tables accept. In every zone it takes as the week the seven days from
  \<^verbatim>\<open>getWeekStart(date)\<close>, and five hours west of UTC that day is a Tuesday: after 100
  minutes on Tuesday 2026-01-27, 50 minutes on Monday 2026-02-02 are answered with
  \<open>weekMinutes = 150\<close> and \<open>awarded = true\<close>, and the award is stored for the week start
  2026-01-27, although the week of that Monday, 2026-02-02 to 2026-02-08, holds 50
  minutes.
\<close>

theorem post_api_piano_west_of_utc:
  "post_api_piano (- 300) (run (- 300) [PostPiano (days_from_civil 2026 1 27) 100])
     (days_from_civil 2026 2 2) 50 =
   (Inr \<lparr>rp_awarded = True, rp_weekMinutes = 150\<rparr>,
    \<lparr>piano_sessions =
       [\<lparr>ps_id = 1, ps_date = days_from_civil 2026 1 27, ps_minutes = 100\<rparr>,
        \<lparr>ps_id = 2, ps_date = days_from_civil 2026 2 2, ps_minutes = 50\<rparr>],
     weekly_awards = [\<lparr>wa_id = 1, wa_week_start = days_from_civil 2026 1 27\<rparr>],
     tests = [], incidents = [],
     transactions =
       [\<lparr>tx_id = 1, tx_date = days_from_civil 2026 2 2, tx_type = ''piano'', tx_amount = 50,
         tx_description = ''Weekly piano goal met! (150 min)''\<rparr>],
     piano_sessions_seq = 2, weekly_awards_seq = 1, tests_seq = 0, incidents_seq = 0,
     transactions_seq = 1\<rparr>)"
  by code_simp

section \<open>Deleting a piano reward\<close>

text \<open>What the route does; with the process in UTC or west of it, the week start it
  computes is the Monday on or before the date of the transaction.\<close>

lemma delete_api_transaction_refused:
  "\<not> int4 (int tid) \<Longrightarrow> delete_api_transaction tz s tid = (Inl StorageFailure, s)"
  by (simp add: delete_api_transaction_def)

lemma delete_api_transaction_not_found:
  assumes "int4 (int tid)" and "filter (\<lambda>t. tx_id t = tid) (transactions s) = []"
  shows "delete_api_transaction tz s tid = (Inl NotFound, s)"
  using assms by (simp add: delete_api_transaction_def)

lemma delete_api_transaction_found:
  fixes tz :: int and s :: db and tid :: nat and tx :: transaction
  defines "ws \<equiv> getWeekStart tz (pg_date tz (tx_date tx))"
  assumes "int4 (int tid)"
    and "filter (\<lambda>t. tx_id t = tid) (transactions s) = tx # rest"
  shows "delete_api_transaction tz s tid =
       (if tx_type tx = ''piano'' \<and> 0 < tx_amount tx then
          if pg_date_ok ws then
            (Inr Success,
             s\<lparr>weekly_awards := filter (\<lambda>a. wa_week_start a \<noteq> ws) (weekly_awards s),
               transactions := filter (\<lambda>t. tx_id t \<noteq> tid) (transactions s)\<rparr>)
          else (Inl StorageFailure, s)
        else (Inr Success, s\<lparr>transactions := filter (\<lambda>t. tx_id t \<noteq> tid) (transactions s)\<rparr>))"
  using assms(2,3) by (simp add: delete_api_transaction_def Let_def ws_def)

lemma delete_api_transaction_west:
  fixes tz :: int and s :: db and tid :: nat and tx :: transaction
  defines "ws \<equiv> getWeekStart tz (pg_date tz (tx_date tx))"
  assumes "- 1440 < tz" and "tz \<le> 0" and "int4 (int tid)"
    and "filter (\<lambda>t. tx_id t = tid) (transactions s) = tx # rest"
    and "pg_date_ok (tx_date tx)"
  shows "WeekDay (new_Date (DateStr ws)) = 1 \<and> ws \<le> tx_date tx \<and> tx_date tx \<le> ws + 6
   \<and> delete_api_transaction tz s tid =
       (Inr Success,
        s\<lparr>weekly_awards :=
             (if tx_type tx = ''piano'' \<and> 0 < tx_amount tx
              then filter (\<lambda>a. wa_week_start a \<noteq> ws) (weekly_awards s) else weekly_awards s),
          transactions := filter (\<lambda>t. tx_id t \<noteq> tid) (transactions s)\<rparr>)"
proof -
  from getWeekStart_pg_west [OF assms(2,3), of "tx_date tx"]
  have m: "WeekDay (new_Date (DateStr ws)) = 1 \<and> ws \<le> tx_date tx \<and> tx_date tx \<le> ws + 6"
    by (simp add: ws_def)
  have "ws = tx_date tx - (tx_date tx + 3) mod 7"
    using monday_closed [of "tx_date tx"]
    by (simp add: ws_def getWeekStart_pg tz_west [OF assms(2,3)])
  then have ok: "pg_date_ok ws" using monday_in_range [OF assms(6)] by simp
  have "delete_api_transaction tz s tid =
       (Inr Success,
        s\<lparr>weekly_awards :=
             (if tx_type tx = ''piano'' \<and> 0 < tx_amount tx
              then filter (\<lambda>a. wa_week_start a \<noteq> ws) (weekly_awards s) else weekly_awards s),
          transactions := filter (\<lambda>t. tx_id t \<noteq> tid) (transactions s)\<rparr>)"
    using delete_api_transaction_found [OF assms(4,5), of tz] ok by (simp add: ws_def)
  with m show ?thesis by simp
qed

text \<open>
  C5. Deleting by an id that no transaction has answers NotFound and changes nothing
  (\<open>delete_api_transaction_not_found\<close>); deleting an existing transaction answers
  success and removes it, and with a positive piano transaction, in a process in UTC or
  west of it, the award of the Monday on or before its date (\<open>delete_api_transaction_west\<close>).
  East of UTC that award is not deleted. One hour east, the goal of the week of Monday
  2026-02-02 is met and its +50 transaction is then deleted: the route answers success
  and deletes the transaction, but the award of week start 2026-02-02 stays, since the
  route looks for week start 2026-02-01.
\<close>

theorem delete_keeps_weekly_award:
  "transactions (run 60 [PostPiano (days_from_civil 2026 2 2) 150]) =
     [\<lparr>tx_id = 1, tx_date = days_from_civil 2026 2 2, tx_type = ''piano'', tx_amount = 50,
       tx_description = ''Weekly piano goal met! (150 min)''\<rparr>]
   \<and> weekly_awards (run 60 [PostPiano (days_from_civil 2026 2 2) 150]) =
     [\<lparr>wa_id = 1, wa_week_start = days_from_civil 2026 2 2\<rparr>]
   \<and> fst (delete_api_transaction 60 (run 60 [PostPiano (days_from_civil 2026 2 2) 150]) 1) =
     Inr Success
   \<and> weekly_awards
       (snd (delete_api_transaction 60 (run 60 [PostPiano (days_from_civil 2026 2 2) 150]) 1)) =
     [\<lparr>wa_id = 1, wa_week_start = days_from_civil 2026 2 2\<rparr>]
   \<and> transactions
       (snd (delete_api_transaction 60 (run 60 [PostPiano (days_from_civil 2026 2 2) 150]) 1)) = []"
  by code_simp

section \<open>Awards and piano rewards, coupled\<close>

text \<open>With the process in UTC every route keeps the state coupled: the piano route adds
  an award and its transaction to a week that had neither, and the deletion of a
  positive piano transaction takes the award of its week with it.\<close>

lemma monday_unique:
  assumes "is_monday w" "w \<le> d" "d \<le> w + 6"
  shows "getWeekStart 0 (DateStr d) = w"
proof -
  define q where "q = (w + 4) div 7"
  have "(w + 4) mod 7 = 1" using assms(1) by (simp only: is_monday_def WeekDay_of_day)
  then have "w + 4 = 7 * q + 1"
    using div_mult_mod_eq [of "w + 4" 7] by (simp add: q_def)
  then have "d + 3 = 7 * q + (d - w)" by simp
  then have "(d + 3) mod 7 = (7 * q + (d - w)) mod 7" by (simp only:)
  also have "\<dots> = (d - w) mod 7" by (rule mod_mult_self4)
  also have "\<dots> = d - w" using assms(2,3) by simp
  finally show ?thesis by (simp add: getWeekStart_utc)
qed

lemma monday_week_iff:
  assumes "is_monday w"
  shows "(w \<le> d \<and> d \<le> w + 6) = (getWeekStart 0 (DateStr d) = w)"
  using monday_unique [OF assms] getWeekStart_str_east [of 0 d] by auto

lemma coupledI:
  "(\<And>w. is_monday w \<Longrightarrow> week_ok s w) \<Longrightarrow>
   list_all (\<lambda>a. is_monday (wa_week_start a)) (weekly_awards s) \<Longrightarrow> coupled s"
  by (simp add: coupled_def)

lemma coupledD: "coupled s \<Longrightarrow> is_monday w \<Longrightarrow> week_ok s w"
  by (simp add: coupled_def)

lemma coupled_mondays:
  "coupled s \<Longrightarrow> list_all (\<lambda>a. is_monday (wa_week_start a)) (weekly_awards s)"
  by (simp add: coupled_def)

lemma coupled_cong:
  "weekly_awards s' = weekly_awards s \<Longrightarrow> transactions s' = transactions s \<Longrightarrow>
   coupled s' = coupled s"
  by (simp add: coupled_def week_ok_def awards_for_def piano_rewards_def)

lemma coupled_insert_other:
  assumes "coupled s" "ty \<noteq> ''piano''"
  shows "coupled (insert_transaction d ty a de s)"
proof (rule coupledI)
  fix w assume "is_monday w"
  with assms(1) have "week_ok s w" by (rule coupledD)
  then show "week_ok (insert_transaction d ty a de s) w"
    using assms(2) by (simp add: week_ok_def awards_for_def piano_rewards_def insert_transaction_def)
next
  show "list_all (\<lambda>a. is_monday (wa_week_start a)) (weekly_awards (insert_transaction d ty a de s))"
    using coupled_mondays [OF assms(1)] by (simp add: insert_transaction_def)
qed

lemma coupled_post_api_piano:
  assumes "coupled s" and "has_next (transactions_seq s)"
  shows "coupled (snd (post_api_piano 0 s date minutes))"
proof (cases "pg_date_ok date \<and> int4 minutes \<and> has_next (piano_sessions_seq s)")
  case False
  then show ?thesis using assms(1) by (simp add: post_api_piano_refused)
next
  case True
  define ws where "ws = getWeekStart 0 (DateStr date)"
  define wm where "wm = sum_list (map ps_minutes
     (filter (\<lambda>p. ws \<le> ps_date p \<and> ps_date p \<le> ws + 6) (piano_sessions s))) + minutes"
  define s1 where "s1 = s\<lparr>piano_sessions := piano_sessions s @
               [\<lparr>ps_id = piano_sessions_seq s + 1, ps_date = date, ps_minutes = minutes\<rparr>],
              piano_sessions_seq := piano_sessions_seq s + 1\<rparr>"
  define s2 where "s2 = s1\<lparr>weekly_awards := weekly_awards s @
               [\<lparr>wa_id = weekly_awards_seq s + 1, wa_week_start = ws\<rparr>],
            weekly_awards_seq := weekly_awards_seq s + 1,
            transactions := transactions s @
               [\<lparr>tx_id = transactions_seq s + 1, tx_date = date, tx_type = ''piano'',
                 tx_amount = 50,
                 tx_description = ''Weekly piano goal met! ('' @ show_int wm @ '' min)''\<rparr>],
            transactions_seq := transactions_seq s + 1\<rparr>"
  define A where "A = (pg_date_ok ws \<and> pg_date_ok (ws + 6) \<and> 150 \<le> wm \<and> awards_for s ws = []
     \<and> has_next (weekly_awards_seq s))"
  from True have acc: "pg_date_ok date" "int4 minutes" "has_next (piano_sessions_seq s)"
    by simp_all
  from getWeekStart_str_east [of 0 date]
  have m: "WeekDay (new_Date (DateStr ws)) = 1" "ws \<le> date" "date \<le> ws + 6"
    by (simp_all add: ws_def)
  then have mon: "is_monday ws" by (simp add: is_monday_def)
  from post_api_piano_week [where s = s, OF acc m(2,3) [unfolded ws_def]] assms(2)
  have res: "snd (post_api_piano 0 s date minutes) = (if A then s2 else s1)"
    by (simp add: ws_def wm_def s1_def s2_def awards_for_def A_def)
  have c1: "coupled s1" using assms(1) coupled_cong [of s1 s] by (simp add: s1_def)
  show ?thesis
  proof (cases A)
    case False
    then have "snd (post_api_piano 0 s date minutes) = s1" unfolding res by (rule if_not_P)
    then show ?thesis using c1 by simp
  next
    case award: True
    then have aw: "awards_for s ws = []" by (simp add: A_def)
    have week: "(w \<le> date \<and> date \<le> w + 6) = (ws = w)" if "is_monday w" for w
      using monday_week_iff [OF that, of date] by (simp add: ws_def)
    from coupledD [OF assms(1) mon] aw have none: "piano_rewards s ws = []"
      by (simp add: week_ok_def)
    have "coupled s2"
    proof (rule coupledI)
      fix w assume w: "is_monday w"
      show "week_ok s2 w"
      proof (cases "ws = w")
        case True
        with week [OF w] have "w \<le> date \<and> date \<le> w + 6" by simp
        then show ?thesis using True aw none
          by (simp add: week_ok_def awards_for_def piano_rewards_def s2_def s1_def)
      next
        case False
        with week [OF w] have out: "\<not> (w \<le> date \<and> date \<le> w + 6)" by simp
        from coupledD [OF assms(1) w] show ?thesis using False out
          by (simp add: week_ok_def awards_for_def piano_rewards_def s2_def s1_def)
      qed
    next
      show "list_all (\<lambda>a. is_monday (wa_week_start a)) (weekly_awards s2)"
        using coupled_mondays [OF assms(1)] mon by (simp add: s2_def s1_def)
    qed
    then show ?thesis using award res by simp
  qed
qed

lemma singleton_of_member: "length xs \<le> 1 \<Longrightarrow> x \<in> set xs \<Longrightarrow> xs = [x]"
  by (cases xs) auto

lemma coupled_delete_api_transaction:
  assumes "coupled s" "tx_ids_ok s"
  shows "coupled (snd (delete_api_transaction 0 s tid))"
proof (cases "int4 (int tid)")
  case False
  then show ?thesis using assms(1) by (simp add: delete_api_transaction_def)
next
  case i: True
  show ?thesis
  proof (cases "filter (\<lambda>t. tx_id t = tid) (transactions s)")
    case Nil
    with i assms(1) show ?thesis by (simp add: delete_api_transaction_not_found)
  next
    case (Cons tx rest)
    define ws where "ws = getWeekStart 0 (pg_date 0 (tx_date tx))"
    define P where "P = (tx_type tx = ''piano'' \<and> 0 < tx_amount tx)"
    define s' where "s' = s\<lparr>weekly_awards :=
             (if P then filter (\<lambda>a. wa_week_start a \<noteq> ws) (weekly_awards s) else weekly_awards s),
          transactions := filter (\<lambda>t. tx_id t \<noteq> tid) (transactions s)\<rparr>"
    have z: "- 1440 < (0::int)" "(0::int) \<le> 0" by simp_all
    from getWeekStart_pg_west [OF z, of "tx_date tx"]
    have mon: "is_monday ws" by (simp add: is_monday_def ws_def)
    from delete_api_transaction_found [OF i Cons, of 0]
    have res: "snd (delete_api_transaction 0 s tid) = (if P \<and> \<not> pg_date_ok ws then s else s')"
      by (simp add: ws_def s'_def P_def)
    have ws': "getWeekStart 0 (DateStr (tx_date tx)) = ws"
      by (simp add: ws_def getWeekStart_utc)
    have "tx \<in> set (filter (\<lambda>t. tx_id t = tid) (transactions s))" by (simp add: Cons)
    then have tx_in: "tx \<in> set (transactions s)" and tx_id: "tx_id tx = tid" by simp_all
    from assms(2) have "inj_on tx_id (set (transactions s))"
      by (simp add: tx_ids_ok_def distinct_map)
    with tx_in tx_id have uniq: "t = tx" if "t \<in> set (transactions s)" "tx_id t = tid" for t
      using that by (auto dest: inj_onD)
    have del: "filter (\<lambda>t. tx_id t \<noteq> tid) (transactions s) = filter (\<lambda>t. t \<noteq> tx) (transactions s)"
      by (rule filter_cong) (use uniq tx_id in auto)
    have rew: "piano_rewards s' w = filter (\<lambda>t. t \<noteq> tx) (piano_rewards s w)" for w
      by (simp add: piano_rewards_def s'_def del conj_commute)
    have week: "(w \<le> tx_date tx \<and> tx_date tx \<le> w + 6) = (ws = w)" if "is_monday w" for w
      using monday_week_iff [OF that, of "tx_date tx"] by (simp add: ws')
    have keep: "filter (\<lambda>t. t \<noteq> tx) (piano_rewards s w) = piano_rewards s w"
      if "\<not> (P \<and> ws = w)" "is_monday w" for w
    proof -
      have "tx \<notin> set (piano_rewards s w)"
        using that week [OF that(2)] by (auto simp: piano_rewards_def P_def)
      then show ?thesis by (auto simp: filter_id_conv)
    qed
    have "coupled s'"
    proof (rule coupledI)
      fix w assume w: "is_monday w"
      from coupledD [OF assms(1) w]
      have ok: "length (awards_for s w) = length (piano_rewards s w)" "length (awards_for s w) \<le> 1"
        by (simp_all add: week_ok_def)
      show "week_ok s' w"
      proof (cases "P \<and> ws = w")
        case True
        then have "w \<le> tx_date tx \<and> tx_date tx \<le> w + 6" using week [OF w] by simp
        with True tx_in have "tx \<in> set (piano_rewards s w)"
          by (simp add: piano_rewards_def P_def)
        with ok have "piano_rewards s w = [tx]" by (intro singleton_of_member) simp_all
        then have "piano_rewards s' w = []" by (simp add: rew)
        moreover have "awards_for s' w = []"
          using True by (simp add: awards_for_def s'_def filter_empty_conv)
        ultimately show ?thesis by (simp add: week_ok_def)
      next
        case False
        have "awards_for s' w = awards_for s w"
          using False by (auto simp: awards_for_def s'_def intro: filter_cong)
        then show ?thesis using ok keep [OF False w] by (simp add: week_ok_def rew)
      qed
    next
      show "list_all (\<lambda>a. is_monday (wa_week_start a)) (weekly_awards s')"
        using coupled_mondays [OF assms(1)] by (simp add: s'_def list_all_iff)
    qed
    then show ?thesis using assms(1) by (simp add: res)
  qed
qed

lemma coupled_handle:
  assumes "coupled s" and "tx_ids_ok s" and "has_next (transactions_seq s)"
  shows "coupled (handle 0 s r)"
proof (cases r)
  case GetData
  then show ?thesis using assms(1) by (simp add: get_api_data_def)
next
  case (PostPiano date minutes)
  then show ?thesis using coupled_post_api_piano [OF assms(1,3)] by simp
next
  case (PostTest date subject score maxScore)
  have "coupled (insert_test date sub sc ms a s)" for sub sc ms a
    using assms(1) coupled_cong [of "insert_test date sub sc ms a s" s]
    by (simp add: insert_test_def)
  then show ?thesis using assms(1)
    by (simp add: PostTest post_api_test_def Let_def coupled_insert_other split: option.splits)
next
  case (PostIncident date n)
  have "coupled (insert_incident date a s)" for a
    using assms(1) coupled_cong [of "insert_incident date a s" s]
    by (simp add: insert_incident_def)
  then show ?thesis using assms(1)
    by (simp add: PostIncident post_api_incident_def Let_def coupled_insert_other)
next
  case (DeleteTransaction tid)
  then show ?thesis using coupled_delete_api_transaction [OF assms(1,2)] by simp
next
  case PostReset
  then show ?thesis
    by (simp add: post_api_reset_def coupled_def week_ok_def awards_for_def piano_rewards_def)
qed

text \<open>The route of the piano rule stores the award before its transaction: the coupling
  needs the sequence of \<^verbatim>\<open>transactions\<close> to have an id left, which it has while the server
  has handled fewer than \<open>2^31 - 1\<close> requests.\<close>

lemma coupled_run: "length reqs \<le> 2147483647 \<Longrightarrow> coupled (run 0 reqs)"
proof (induction reqs rule: rev_induct)
  case Nil
  show ?case
    by (simp add: run_def empty_db_def coupled_def week_ok_def awards_for_def piano_rewards_def)
next
  case (snoc r reqs)
  from snoc.prems have len: "length reqs < 2147483647" by simp
  then have c: "coupled (run 0 reqs)" using snoc.IH by simp
  have "int (transactions_seq (run 0 reqs)) \<le> int (length reqs)"
    using transactions_seq_run [of 0 reqs] by (simp only: of_nat_le_iff)
  moreover have "int (length reqs) < 2147483647" using len by simp
  ultimately have n: "has_next (transactions_seq (run 0 reqs))" by (simp add: has_next_def)
  have "run 0 (reqs @ [r]) = handle 0 (run 0 reqs) r" by (simp add: run_def)
  then show ?case using coupled_handle [OF c tx_ids_ok_run n] by simp
qed

lemma weekly_award_invariant_utc:
  assumes "length reqs \<le> 2147483647"
  shows "length (awards_for (run 0 reqs) ws) \<le> 1"
    and "is_monday ws \<Longrightarrow>
     (awards_for (run 0 reqs) ws \<noteq> []) = (length (piano_rewards (run 0 reqs) ws) = 1)"
proof -
  have c: "coupled (run 0 reqs)" using assms by (rule coupled_run)
  show "length (awards_for (run 0 reqs) ws) \<le> 1"
  proof (cases "is_monday ws")
    case True
    from coupledD [OF c True] show ?thesis by (simp add: week_ok_def)
  next
    case False
    with coupled_mondays [OF c] have "awards_for (run 0 reqs) ws = []"
      by (auto simp: awards_for_def filter_empty_conv list_all_iff)
    then show ?thesis by simp
  qed
  show "(awards_for (run 0 reqs) ws \<noteq> []) = (length (piano_rewards (run 0 reqs) ws) = 1)"
    if "is_monday ws"
  proof -
    from coupledD [OF c that]
    have "length (awards_for (run 0 reqs) ws) = length (piano_rewards (run 0 reqs) ws)"
      and "length (awards_for (run 0 reqs) ws) \<le> 1"
      by (simp_all add: week_ok_def)
    then show ?thesis by (cases "awards_for (run 0 reqs) ws") auto
  qed
qed

text \<open>
  C2. In every state that requests lead to from the empty tables, a week start is to
  have at most one award, and a week an award exactly when it has exactly one positive
  piano transaction. With the process in UTC that is so while the server has handled
  fewer than \<open>2^31\<close> requests (\<open>weekly_award_invariant_utc\<close>).
  One hour east of UTC, meeting the goal of the week of 2026-02-02 and deleting the +50
  transaction leaves a state that has the weekly award for 2026-02-02 and no
  transaction at all. Five hours west of UTC the same two requests leave the award of
  week start 2026-01-27 and no transaction.
\<close>

theorem award_left_without_transaction:
  "run 60 [PostPiano (days_from_civil 2026 2 2) 150, DeleteTransaction 1] =
   \<lparr>piano_sessions = [\<lparr>ps_id = 1, ps_date = days_from_civil 2026 2 2, ps_minutes = 150\<rparr>],
    weekly_awards = [\<lparr>wa_id = 1, wa_week_start = days_from_civil 2026 2 2\<rparr>],
    tests = [], incidents = [], transactions = [],
    piano_sessions_seq = 1, weekly_awards_seq = 1, tests_seq = 0, incidents_seq = 0,
    transactions_seq = 1\<rparr>
   \<and> run (- 300) [PostPiano (days_from_civil 2026 2 2) 150, DeleteTransaction 1] =
   \<lparr>piano_sessions = [\<lparr>ps_id = 1, ps_date = days_from_civil 2026 2 2, ps_minutes = 150\<rparr>],
    weekly_awards = [\<lparr>wa_id = 1, wa_week_start = days_from_civil 2026 1 27\<rparr>],
    tests = [], incidents = [], transactions = [],
    piano_sessions_seq = 1, weekly_awards_seq = 1, tests_seq = 0, incidents_seq = 0,
    transactions_seq = 1\<rparr>"
  by code_simp

section \<open>Rounding to a double\<close>

lemma round_half_even_of_int: "round_half_even (of_int k) = k"
  by (simp add: round_half_even_def)

lemma round_half_even_bounds: "\<lfloor>q\<rfloor> \<le> round_half_even q \<and> round_half_even q \<le> \<lfloor>q\<rfloor> + 1"
  by (simp add: round_half_even_def Let_def)

lemma round_half_even_mono:
  assumes "q \<le> q'"
  shows "round_half_even q \<le> round_half_even q'"
proof (cases "\<lfloor>q\<rfloor> = \<lfloor>q'\<rfloor>")
  case True
  with assms have "q - of_int \<lfloor>q\<rfloor> \<le> q' - of_int \<lfloor>q'\<rfloor>" by simp
  then show ?thesis using True by (auto simp: round_half_even_def Let_def)
next
  case False
  with assms have "\<lfloor>q\<rfloor> + 1 \<le> \<lfloor>q'\<rfloor>" using floor_mono [of q q'] by simp
  then show ?thesis
    using round_half_even_bounds [of q] round_half_even_bounds [of q'] by linarith
qed

lemma binade_bounds:
  assumes "x \<noteq> 0"
  shows "2 powi binade x \<le> \<bar>x\<bar> \<and> \<bar>x\<bar> < 2 powi (binade x + 1)"
proof (cases "1 \<le> \<bar>x\<bar>")
  case True
  define n where "n = \<lfloor>\<bar>x\<bar>\<rfloor>"
  have n1: "1 \<le> n" using True by (simp add: n_def le_floor_iff)
  have e: "binade x = bitlen n - 1" using True by (simp add: binade_def n_def)
  have b1: "1 \<le> bitlen n" using n1 bitlen_eq_zero_iff [of n] bitlen_nonneg [of n] by linarith
  from bitlen_bounds [of n] n1
  have lo: "2 ^ nat (bitlen n - 1) \<le> n" and hi: "n < 2 ^ nat (bitlen n)" by auto
  have "(2::rat) powi binade x = of_int (2 ^ nat (bitlen n - 1))"
    using b1 by (simp add: e power_int_nonneg_exp)
  also have "\<dots> \<le> of_int n" using lo by (simp only: of_int_le_iff)
  also have "\<dots> \<le> \<bar>x\<bar>" by (simp add: n_def)
  finally have L: "2 powi binade x \<le> \<bar>x\<bar>" .
  have "\<bar>x\<bar> < of_int (n + 1)" using floor_correct [of "\<bar>x\<bar>"] by (simp add: n_def)
  also have "\<dots> \<le> of_int (2 ^ nat (bitlen n))" using hi by (simp only: of_int_le_iff)
  also have "\<dots> = (2::rat) powi (binade x + 1)"
    using b1 by (simp add: e power_int_nonneg_exp)
  finally show ?thesis using L by simp
next
  case False
  define y where "y = 1 / \<bar>x\<bar>"
  define n where "n = \<lceil>y\<rceil>"
  define b where "b = bitlen (n - 1)"
  have xpos: "0 < \<bar>x\<bar>" using assms by simp
  have y1: "1 < y" using False xpos by (simp add: y_def)
  have ypos: "0 < y" using y1 by simp
  have xy: "\<bar>x\<bar> = 1 / y" by (simp add: y_def)
  have n2: "2 \<le> n" using y1 unfolding n_def by linarith
  have e: "binade x = - b" using False by (simp add: binade_def b_def n_def y_def)
  have b1: "1 \<le> b"
    using n2 bitlen_eq_zero_iff [of "n - 1"] bitlen_nonneg [of "n - 1"] unfolding b_def by linarith
  from bitlen_bounds [of "n - 1"] n2
  have lo: "2 ^ nat (b - 1) \<le> n - 1" and hi: "n - 1 < 2 ^ nat b" by (auto simp: b_def)
  have yn: "y \<le> of_int n" by (simp add: n_def)
  have ny: "of_int (n - 1) < y" unfolding n_def by linarith
  have "n \<le> 2 ^ nat b" using hi by simp
  then have "(of_int n :: rat) \<le> of_int (2 ^ nat b)" by (simp only: of_int_le_iff)
  with yn have "y \<le> of_int (2 ^ nat b)" by linarith
  then have "1 / of_int (2 ^ nat b) \<le> 1 / y"
    using ypos by (simp add: frac_le)
  moreover have "(2::rat) powi binade x = 1 / of_int (2 ^ nat b)"
    using b1 by (simp add: e power_int_minus_divide power_int_nonneg_exp)
  ultimately have L: "2 powi binade x \<le> \<bar>x\<bar>" by (simp add: xy)
  have "(of_int (2 ^ nat (b - 1)) :: rat) \<le> of_int (n - 1)" using lo by (simp only: of_int_le_iff)
  with ny have "of_int (2 ^ nat (b - 1)) < y" by linarith
  then have "1 / y < 1 / (of_int (2 ^ nat (b - 1)) :: rat)"
    by (simp add: frac_less2)
  moreover have "(2::rat) powi (binade x + 1) = 1 / of_int (2 ^ nat (b - 1))"
  proof -
    have "binade x + 1 = - (b - 1)" by (simp add: e)
    then have "(2::rat) powi (binade x + 1) = 2 powi (- (b - 1))" by (simp only:)
    also have "\<dots> = 1 / 2 powi (b - 1)" by (rule power_int_minus_divide)
    also have "(2::rat) powi (b - 1) = 2 ^ nat (b - 1)"
      by (rule power_int_nonneg_exp) (use b1 in simp)
    finally show ?thesis by simp
  qed
  ultimately show ?thesis using L by (simp add: xy)
qed

lemma rnd_nonpos:
  assumes "x \<le> 0"
  shows "rnd x \<le> 0"
proof (cases "x = 0")
  case True
  then show ?thesis by (simp add: rnd_def)
next
  case False
  define u :: rat where "u = 2 powi (binade x - 52)"
  have u: "0 < u" by (simp add: u_def)
  have "x / u < 0" using assms False u by (simp add: divide_neg_pos)
  then have "\<lfloor>x / u\<rfloor> < 0" by (simp add: floor_less_iff)
  then have "round_half_even (x / u) \<le> 0"
    using round_half_even_bounds [of "x / u"] by linarith
  then have "of_int (round_half_even (x / u)) * u \<le> 0"
    using u by (simp add: mult_le_0_iff)
  then show ?thesis using False by (simp add: rnd_def Let_def u_def)
qed

lemma rnd_range:
  assumes "0 < x"
  shows "2 powi binade x \<le> rnd x \<and> rnd x \<le> 2 powi (binade x + 1)"
proof -
  define e where "e = binade x"
  define u :: rat where "u = 2 powi (e - 52)"
  have u: "0 < u" by (simp add: u_def)
  have r: "rnd x = of_int (round_half_even (x / u)) * u"
    using assms by (simp add: rnd_def Let_def u_def e_def)
  from binade_bounds [of x] assms
  have lo: "2 powi e \<le> x" and hi: "x < 2 powi (e + 1)" by (simp_all add: e_def)
  have p52: "(2::rat) powi e = of_int (2 ^ 52) * u"
    using power_int_add [of "2::rat" 52 "e - 52"] by (simp add: u_def)
  have p53: "(2::rat) powi (e + 1) = of_int (2 ^ 53) * u"
    using power_int_add [of "2::rat" 53 "e - 52"] by (simp add: u_def add.commute)
  have "of_int (2 ^ 52) \<le> x / u" using lo u by (simp add: p52 pos_le_divide_eq)
  then have "2 ^ 52 \<le> round_half_even (x / u)"
    using round_half_even_mono [of "of_int (2 ^ 52)" "x / u"]
    by (simp only: round_half_even_of_int)
  then have "(of_int (2 ^ 52) :: rat) \<le> of_int (round_half_even (x / u))"
    by (simp only: of_int_le_iff)
  then have L: "2 powi e \<le> rnd x"
    using u by (simp only: p52 r mult_le_cancel_right) simp
  have "x / u \<le> of_int (2 ^ 53)" using hi u by (simp add: p53 pos_divide_le_eq)
  then have "round_half_even (x / u) \<le> 2 ^ 53"
    using round_half_even_mono [of "x / u" "of_int (2 ^ 53)"]
    by (simp only: round_half_even_of_int)
  then have "(of_int (round_half_even (x / u)) :: rat) \<le> of_int (2 ^ 53)"
    by (simp only: of_int_le_iff)
  then have "rnd x \<le> 2 powi (e + 1)"
    using u by (simp only: p53 r mult_le_cancel_right) simp
  with L show ?thesis by (simp add: e_def)
qed

lemma binade_mono:
  assumes "0 < x" "x \<le> y"
  shows "binade x \<le> binade y"
proof (rule ccontr)
  assume "\<not> binade x \<le> binade y"
  then have "binade y + 1 \<le> binade x" by simp
  then have "(2::rat) powi (binade y + 1) \<le> 2 powi binade x"
    by (rule power_int_increasing) simp
  moreover from binade_bounds [of x] assms have "2 powi binade x \<le> x" by simp
  moreover from binade_bounds [of y] assms have "y < 2 powi (binade y + 1)" by simp
  ultimately show False using assms by linarith
qed

lemma rnd_mono:
  assumes "0 < x" "x \<le> y"
  shows "rnd x \<le> rnd y"
proof (cases "binade x = binade y")
  case True
  define u :: rat where "u = 2 powi (binade x - 52)"
  have u: "0 < u" by (simp add: u_def)
  have "x / u \<le> y / u" using assms u by (simp add: divide_right_mono)
  then have "round_half_even (x / u) \<le> round_half_even (y / u)"
    by (rule round_half_even_mono)
  then have "(of_int (round_half_even (x / u)) :: rat) * u \<le> of_int (round_half_even (y / u)) * u"
    using u by (simp only: mult_le_cancel_right of_int_le_iff) simp
  then show ?thesis using assms True by (simp add: rnd_def Let_def u_def)
next
  case False
  with binade_mono [OF assms] have "binade x + 1 \<le> binade y" by simp
  then have "(2::rat) powi (binade x + 1) \<le> 2 powi binade y"
    by (rule power_int_increasing) simp
  moreover from rnd_range [of x] assms have "rnd x \<le> 2 powi (binade x + 1)" by simp
  moreover from rnd_range [of y] assms have "2 powi binade y \<le> rnd y" by simp
  ultimately show ?thesis by linarith
qed

lemma rnd_of_int:
  assumes "\<bar>n\<bar> < 2 ^ 53"
  shows "rnd (of_int n) = of_int n"
proof (cases "n = 0")
  case True
  then show ?thesis by (simp add: rnd_def)
next
  case False
  define e where "e = binade (of_int n)"
  have "(2::rat) powi e \<le> \<bar>of_int n\<bar>"
    using binade_bounds [of "of_int n"] False by (simp add: e_def)
  also have "\<bar>of_int n :: rat\<bar> < 2 powi 53"
  proof -
    have "(of_int \<bar>n\<bar> :: rat) < of_int (2 ^ 53)" using assms by (simp only: of_int_less_iff)
    then show ?thesis by simp
  qed
  finally have "e < 53" by (rule power_int_le_imp_less_exp [rotated]) simp_all
  define k where "k = nat (52 - e)"
  have k: "e - 52 = - int k" using \<open>e < 53\<close> by (simp add: k_def)
  have u: "(2::rat) powi (e - 52) = 1 / 2 ^ k"
    by (simp add: k power_int_minus_divide)
  have "of_int n / (2 powi (e - 52)) = (of_int (n * 2 ^ k) :: rat)"
    by (simp add: u)
  then have "round_half_even (of_int n / (2 powi (e - 52))) = n * 2 ^ k"
    by (simp only: round_half_even_of_int)
  then show ?thesis using False by (simp add: rnd_def Let_def e_def [symmetric] u)
qed

lemma rnd_pos: "0 < x \<Longrightarrow> 0 < rnd x"
proof -
  assume "0 < x"
  from rnd_range [OF this] have "2 powi binade x \<le> rnd x" by simp
  moreover have "(0::rat) < 2 powi binade x" by simp
  ultimately show ?thesis by linarith
qed

lemma rnd_95_lower: "rnd (rnd (19 / 20) * 100) = 95"
  by code_simp

lemma rnd_95_upper: "rnd (rnd (19 / 20 - 1 / (20 * 2147483647)) * 100) < 95"
  by code_simp

lemma percentage_threshold:
  assumes "int4 score" "int4 maxScore" "0 < maxScore"
  shows "(95 \<le> rnd (rnd (of_int score / of_int maxScore) * 100)) = (95 * maxScore \<le> 100 * score)"
proof -
  define q :: rat where "q = of_int score / of_int maxScore"
  have m: "(0::rat) < of_int maxScore" using assms(3) by simp
  show ?thesis
  proof (cases "95 * maxScore \<le> 100 * score")
    case True
    then have "(of_int (95 * maxScore) :: rat) \<le> of_int (100 * score)" by (simp only: of_int_le_iff)
    then have "19 / 20 \<le> q" using m by (simp add: q_def field_simps)
    then have "rnd (19 / 20) \<le> rnd q" by (intro rnd_mono) simp_all
    then have "rnd (19 / 20) * 100 \<le> rnd q * 100" by simp
    moreover have "0 < rnd (19 / 20) * 100" using rnd_pos [of "19 / 20"] by simp
    ultimately have "rnd (rnd (19 / 20) * 100) \<le> rnd (rnd q * 100)" by (intro rnd_mono)
    then show ?thesis using True by (simp add: rnd_95_lower q_def)
  next
    case False
    have "rnd (rnd q * 100) < 95"
    proof (cases "0 < score")
      case neg: False
      then have "q \<le> 0" using m by (simp add: q_def divide_le_0_iff)
      then have "rnd q * 100 \<le> 0" using rnd_nonpos [of q] by simp
      then have "rnd (rnd q * 100) \<le> 0" by (rule rnd_nonpos)
      then show ?thesis by simp
    next
      case pos: True
      then have q0: "0 < q" using m by (simp add: q_def)
      from False have "20 * score + 1 \<le> 19 * maxScore" by simp
      then have "(of_int (20 * score + 1) :: rat) \<le> of_int (19 * maxScore)"
        by (simp only: of_int_le_iff)
      then have "q \<le> 19 / 20 - 1 / (20 * of_int maxScore)" using m by (simp add: q_def field_simps)
      moreover have "1 / (20 * 2147483647) \<le> 1 / (20 * (of_int maxScore :: rat))"
      proof -
        have "(of_int maxScore :: rat) \<le> of_int 2147483647"
          using assms(2) by (simp only: of_int_le_iff int4_def)
        then show ?thesis using m by (simp add: frac_le)
      qed
      ultimately have "q \<le> 19 / 20 - 1 / (20 * 2147483647)" by linarith
      with q0 have "rnd q \<le> rnd (19 / 20 - 1 / (20 * 2147483647))" by (rule rnd_mono)
      then have "rnd q * 100 \<le> rnd (19 / 20 - 1 / (20 * 2147483647)) * 100" by simp
      moreover have "0 < rnd q * 100" using rnd_pos [OF q0] by simp
      ultimately have "rnd (rnd q * 100) \<le> rnd (rnd (19 / 20 - 1 / (20 * 2147483647)) * 100)"
        by (intro rnd_mono)
      with rnd_95_upper show ?thesis by linarith
    qed
    then show ?thesis using False by (simp add: q_def)
  qed
qed

lemma round_half_even_error: "\<bar>of_int (round_half_even q) - q\<bar> \<le> 1 / 2"
proof -
  have f: "of_int \<lfloor>q\<rfloor> \<le> q" "q < of_int \<lfloor>q\<rfloor> + 1" by linarith+
  consider "q - of_int \<lfloor>q\<rfloor> < 1 / 2" | "1 / 2 < q - of_int \<lfloor>q\<rfloor>" | "q - of_int \<lfloor>q\<rfloor> = 1 / 2"
    by linarith
  then show ?thesis
  proof cases
    case 1
    then have "round_half_even q = \<lfloor>q\<rfloor>" by (simp add: round_half_even_def Let_def)
    then show ?thesis using f 1 by simp
  next
    case 2
    then have "round_half_even q = \<lfloor>q\<rfloor> + 1" by (simp add: round_half_even_def Let_def)
    then show ?thesis using f 2 by simp
  next
    case 3
    then have "round_half_even q = \<lfloor>q\<rfloor> \<or> round_half_even q = \<lfloor>q\<rfloor> + 1"
      by (simp add: round_half_even_def Let_def)
    then show ?thesis using f 3 by auto
  qed
qed

lemma rnd_error: "\<bar>rnd x - x\<bar> \<le> \<bar>x\<bar> / 2 ^ 53"
proof (cases "x = 0")
  case True
  then show ?thesis by (simp add: rnd_def)
next
  case False
  define u :: rat where "u = 2 powi (binade x - 52)"
  have u: "0 < u" by (simp add: u_def)
  have r: "rnd x = of_int (round_half_even (x / u)) * u"
    using False by (simp add: rnd_def Let_def u_def)
  have "rnd x - x = (of_int (round_half_even (x / u)) - x / u) * u"
    using u by (simp add: r left_diff_distrib)
  then have "\<bar>rnd x - x\<bar> = \<bar>of_int (round_half_even (x / u)) - x / u\<bar> * u"
    using u by (simp add: abs_mult)
  also have "\<dots> \<le> 1 / 2 * u"
    using round_half_even_error [of "x / u"] u by (intro mult_right_mono) simp_all
  also have "\<dots> = 2 powi binade x / 2 ^ 53"
    using power_int_add [of "2::rat" "binade x - 52" 52] by (simp add: u_def)
  also have "\<dots> \<le> \<bar>x\<bar> / 2 ^ 53"
    using binade_bounds [OF False] by (simp add: divide_right_mono)
  finally show ?thesis .
qed

lemma percentage_error:
  fixes q :: rat
  shows "\<bar>rnd (rnd q * 100) - q * 100\<bar> \<le> \<bar>q * 100\<bar> / 2 ^ 51"
proof -
  define e :: rat where "e = 1 / 2 ^ 53"
  have e: "0 < e" "e \<le> 1" by (simp_all add: e_def)
  have 1: "\<bar>rnd q - q\<bar> \<le> \<bar>q\<bar> * e" using rnd_error [of q] by (simp add: e_def)
  have 2: "\<bar>rnd (rnd q * 100) - rnd q * 100\<bar> \<le> \<bar>rnd q * 100\<bar> * e"
    using rnd_error [of "rnd q * 100"] by (simp add: e_def)
  have "\<bar>rnd q\<bar> \<le> \<bar>q\<bar> + \<bar>q\<bar> * e" using 1 by linarith
  also have "\<dots> \<le> \<bar>q\<bar> + \<bar>q\<bar> * 1" using e by (intro add_left_mono mult_left_mono) simp_all
  also have "\<dots> = \<bar>q\<bar> * 2" by simp
  finally have 3: "\<bar>rnd q * 100\<bar> \<le> \<bar>q\<bar> * 200" by (simp add: abs_mult)
  have "rnd q * 100 - q * 100 = (rnd q - q) * 100" by (simp add: left_diff_distrib)
  then have "\<bar>rnd q * 100 - q * 100\<bar> = \<bar>rnd q - q\<bar> * 100"
    by (simp only: abs_mult abs_numeral)
  then have "\<bar>rnd (rnd q * 100) - q * 100\<bar>
      \<le> \<bar>rnd (rnd q * 100) - rnd q * 100\<bar> + \<bar>rnd q - q\<bar> * 100"
    by linarith
  also have "\<dots> \<le> \<bar>rnd q * 100\<bar> * e + \<bar>q\<bar> * e * 100"
    using 1 2 by (intro add_mono mult_right_mono) simp_all
  also have "\<dots> \<le> \<bar>q\<bar> * 200 * e + \<bar>q\<bar> * e * 100"
    using 3 e by (simp add: mult_right_mono)
  also have "\<dots> \<le> \<bar>q * 100\<bar> / 2 ^ 51" by (simp add: e_def abs_mult)
  finally show ?thesis .
qed

lemma rnd_neg:
  assumes "x < 0"
  shows "rnd x < 0"
proof -
  have "rnd x - x \<le> \<bar>rnd x - x\<bar>" by simp
  also have "\<dots> \<le> \<bar>x\<bar> / 2 ^ 53" by (rule rnd_error)
  also have "\<dots> = - x / 2 ^ 53" using assms by simp
  finally have "rnd x \<le> x - x / 2 ^ 53" by simp
  also have "\<dots> = x * (1 - 1 / 2 ^ 53)" by (simp add: right_diff_distrib)
  also have "\<dots> < 0" using assms by (simp add: mult_less_0_iff)
  finally show ?thesis .
qed

lemma rnd_eq_0_iff: "(rnd x = 0) = (x = 0)"
proof (cases "x = 0")
  case True
  then show ?thesis by (simp add: rnd_def)
next
  case False
  then consider "0 < x" | "x < 0" by linarith
  then have "rnd x \<noteq> 0"
  proof cases
    case 1
    then show ?thesis using rnd_pos [of x] by simp
  next
    case 2
    then show ?thesis using rnd_neg [of x] by simp
  qed
  with False show ?thesis by simp
qed

section \<open>The test rule\<close>

text \<open>The Numbers that \<^verbatim>\<open>INSERT INTO tests\<close> accepts as score and maxScore: the integers
  of \<open>int4\<close>, each of which is a double, and \<open>-0\<close>, stored as 0.\<close>

lemma pg_int4_Some:
  assumes "pg_int4 x = Some a"
  shows "int4 a \<and> (x = Num (of_int a) \<or> (x = NegZero \<and> a = 0))"
proof (cases x)
  case (Num q)
  with assms have "q = of_int \<lfloor>q\<rfloor>" "int4 \<lfloor>q\<rfloor>" "a = \<lfloor>q\<rfloor>"
    by (simp_all add: pg_int4_def split: if_splits)
  then show ?thesis using Num by simp
next
  case NegZero
  with assms show ?thesis by (simp add: pg_int4_def int4_def)
qed (use assms in \<open>simp_all add: pg_int4_def\<close>)

lemma pg_int4_double:
  assumes "pg_int4 x = Some a"
  shows "rnd (of_int a) = of_int a"
proof -
  from pg_int4_Some [OF assms] have "int4 a" by simp
  then have "\<bar>a\<bar> < 2 ^ 53" unfolding int4_def by simp linarith
  then show ?thesis by (rule rnd_of_int)
qed

lemma post_api_test_refused:
  assumes "pg_int4 score = None \<or> pg_int4 maxScore = None \<or> varchar255 subject = None
           \<or> \<not> pg_date_ok date \<or> \<not> pg_text_ok subject \<or> \<not> has_next (tests_seq s)"
  shows "post_api_test s date subject score maxScore = (Inl StorageFailure, s)"
  using assms by (auto simp: post_api_test_def Let_def split: option.splits)

text \<open>The percentage of an accepted test with \<open>maxScore > 0\<close> is the double \<open>p\<close>, or
  \<open>-0\<close> for the score \<open>-0\<close>.\<close>

lemma percentage_positive_max:
  fixes a m :: int
  defines "p \<equiv> rnd (rnd (of_int a / of_int m) * 100)"
  assumes "pg_int4 score = Some a" and "pg_int4 maxScore = Some m" and "0 < m"
  shows "js_mul (js_div score maxScore) (Num 100) = Num p
         \<or> (js_mul (js_div score maxScore) (Num 100) = NegZero \<and> p = 0)"
proof -
  from pg_int4_Some [OF assms(3)] assms(4) have ms: "maxScore = Num (of_int m)" by auto
  from pg_int4_Some [OF assms(2)]
  consider "score = NegZero" "a = 0" | "score = Num (of_int a)" "a = 0"
    | "score = Num (of_int a)" "a \<noteq> 0" by (cases "a = 0") auto
  then show ?thesis
  proof cases
    case 1
    then show ?thesis using assms(4)
      by (simp add: ms js_div_def js_mul_def p_def rnd_def)
  next
    case 2
    then show ?thesis using assms(4)
      by (simp add: ms js_div_def js_mul_def p_def rnd_def)
  next
    case 3
    then have "rnd (of_int a / of_int m) \<noteq> 0" using assms(4) by (simp add: rnd_eq_0_iff)
    then show ?thesis using 3 assms(4)
      by (simp add: ms js_div_def js_mul_def p_def)
  qed
qed

text \<open>
  C3 (as amended). A test with \<open>maxScore > 0\<close> that the table accepts - the date a day of
  the years 0001 to 9999; the subject without the character NUL and with nothing but
  spaces after its 255th character; score and maxScore integers of \<^verbatim>\<open>INTEGER\<close> range
  (\<open>a\<close> and \<open>m\<close>, as the table reads them) - while the sequence of \<^verbatim>\<open>tests\<close> and, for an
  awarded test, that of \<^verbatim>\<open>transactions\<close> have ids left: the percentage is the double
  \<^verbatim>\<open>score / maxScore * 100\<close> (\<open>p\<close>: the quotient rounded, times 100, rounded), which is
  the exact percentage up to one part in \<open>2^51\<close>; \<open>awarded\<close> is \<^verbatim>\<open>percentage >= 95\<close>, which
  holds exactly when score is at least 95 percent of maxScore; one row of \<^verbatim>\<open>tests\<close> is
  inserted with that flag, and with the first 255 characters of the subject; a
  transaction (date, "test", +100) described
  "<subject> test: <score>/<maxScore> (<percentage to the nearest integer>%)" is
  inserted if and only if awarded; and the answer carries \<open>awarded\<close> and the unrounded
  percentage.
\<close>

theorem post_api_test_spec:
  fixes s :: db and date :: day and subject :: string and score maxScore :: jsnum
    and a m :: int
  defines "p \<equiv> rnd (rnd (of_int a / of_int m) * 100)"
  defines "s1 \<equiv> \<lambda>awarded. s\<lparr>tests := tests s @
             [\<lparr>test_id = tests_seq s + 1, test_date = date, test_subject = take 255 subject,
               test_score = a, test_max_score = m, test_awarded = awarded\<rparr>],
           tests_seq := tests_seq s + 1\<rparr>"
  assumes "pg_int4 score = Some a" and "pg_int4 maxScore = Some m" and "0 < m"
    and "pg_date_ok date" and "pg_text_ok subject" and "varchar255 subject \<noteq> None"
    and "has_next (tests_seq s)"
    and "95 * m \<le> 100 * a \<Longrightarrow> has_next (transactions_seq s)"
  shows "json_number (js_mul (js_div score maxScore) (Num 100)) = Some p
     \<and> \<bar>p - of_int a / of_int m * 100\<bar> \<le> \<bar>of_int a / of_int m * 100\<bar> / 2 ^ 51
     \<and> js_ge (js_mul (js_div score maxScore) (Num 100)) (Num 95) = (95 * m \<le> 100 * a)
     \<and> post_api_test s date subject score maxScore =
         (Inr \<lparr>rt_awarded = (95 * m \<le> 100 * a), rt_percentage = Some p\<rparr>,
          if 95 * m \<le> 100 * a then
            (s1 True)\<lparr>transactions := transactions s @
               [\<lparr>tx_id = transactions_seq s + 1, tx_date = date, tx_type = ''test'',
                 tx_amount = 100,
                 tx_description = subject @ '' test: '' @ show_int a @ ''/'' @
                   show_int m @ '' ('' @ digits (nat \<lfloor>p + 1 / 2\<rfloor>) @ ''%)''\<rparr>],
              transactions_seq := transactions_seq s + 1\<rparr>
          else s1 False)"
proof -
  define pct where "pct = js_mul (js_div score maxScore) (Num 100)"
  from assms(8) have sub: "varchar255 subject = Some (take 255 subject)"
    by (simp add: varchar255_def split: if_splits)
  from pg_int4_Some [OF assms(3)] pg_int4_Some [OF assms(4)]
  have i: "int4 a" "int4 m" by simp_all
  have thr: "(95 \<le> p) = (95 * m \<le> 100 * a)"
    using percentage_threshold [OF i assms(5)] by (simp add: p_def)
  from percentage_positive_max [OF assms(3-5)]
  have shape: "pct = Num p \<or> (pct = NegZero \<and> p = 0)" by (simp add: pct_def p_def)
  then have json: "json_number pct = Some p" by (auto simp: json_number_def)
  from shape have ge: "js_ge pct (Num 95) = (95 * m \<le> 100 * a)"
    using thr by (auto simp: js_ge_def)
  have err: "\<bar>p - of_int a / of_int m * 100\<bar> \<le> \<bar>of_int a / of_int m * 100\<bar> / 2 ^ 51"
    unfolding p_def by (rule percentage_error)
  have fixed: "toFixed0 pct = digits (nat \<lfloor>p + 1 / 2\<rfloor>)" if "95 * m \<le> 100 * a"
  proof -
    from that thr have "95 \<le> p" by simp
    with shape have "pct = Num p" by auto
    then show ?thesis using \<open>95 \<le> p\<close> by (simp add: toFixed0_def)
  qed
  have "post_api_test s date subject score maxScore =
         (Inr \<lparr>rt_awarded = (95 * m \<le> 100 * a), rt_percentage = Some p\<rparr>,
          if 95 * m \<le> 100 * a then
            (s1 True)\<lparr>transactions := transactions s @
               [\<lparr>tx_id = transactions_seq s + 1, tx_date = date, tx_type = ''test'',
                 tx_amount = 100,
                 tx_description = subject @ '' test: '' @ show_int a @ ''/'' @
                   show_int m @ '' ('' @ digits (nat \<lfloor>p + 1 / 2\<rfloor>) @ ''%)''\<rparr>],
              transactions_seq := transactions_seq s + 1\<rparr>
          else s1 False)"
    unfolding post_api_test_def pct_def [symmetric] Let_def
    using assms(3,4,6,7,9,10) sub json ge fixed
    by (simp add: insert_test_def insert_transaction_def s1_def)
  with json ge err show ?thesis by (simp add: pct_def)
qed

theorem post_api_test_spec_witness:
  "pg_int4 (Num 95) = Some 95 \<and> pg_int4 (Num 100) = Some 100 \<and> (0::int) < 100
   \<and> pg_date_ok (days_from_civil 2026 2 2) \<and> pg_text_ok ''Math''
   \<and> varchar255 ''Math'' \<noteq> None \<and> has_next (tests_seq empty_db)
   \<and> has_next (transactions_seq empty_db)
   \<and> post_api_test empty_db (days_from_civil 2026 2 2) ''Math'' (Num 95) (Num 100) =
     (Inr \<lparr>rt_awarded = True, rt_percentage = Some 95\<rparr>,
      \<lparr>piano_sessions = [], weekly_awards = [],
       tests = [\<lparr>test_id = 1, test_date = days_from_civil 2026 2 2, test_subject = ''Math'',
                 test_score = 95, test_max_score = 100, test_awarded = True\<rparr>],
       incidents = [],
       transactions = [\<lparr>tx_id = 1, tx_date = days_from_civil 2026 2 2, tx_type = ''test'',
                        tx_amount = 100, tx_description = ''Math test: 95/100 (95%)''\<rparr>],
       piano_sessions_seq = 0, weekly_awards_seq = 0, tests_seq = 1, incidents_seq = 0,
       transactions_seq = 1\<rparr>)"
proof -
  have h1: "pg_int4 (Num 95) = Some 95" and h2: "pg_int4 (Num 100) = Some 100" by code_simp+
  have h3: "(0::int) < 100" by simp
  have h4: "pg_date_ok (days_from_civil 2026 2 2)" and h5: "pg_text_ok ''Math''"
    and h6: "varchar255 ''Math'' \<noteq> None" by code_simp+
  have h7: "has_next (tests_seq empty_db)" and h8: "has_next (transactions_seq empty_db)"
    by code_simp+
  have p: "rnd (rnd (of_int 95 / of_int 100) * 100) = 95" by code_simp
  have d: "show_int 95 = ''95''" "show_int 100 = ''100''" "digits (nat \<lfloor>(95::rat) + 1 / 2\<rfloor>) = ''95''"
    by code_simp+
  from post_api_test_spec [OF h1 h2 h3 h4 h5 h6 h7 h8]
  have "post_api_test empty_db (days_from_civil 2026 2 2) ''Math'' (Num 95) (Num 100) =
     (Inr \<lparr>rt_awarded = True, rt_percentage = Some 95\<rparr>,
      \<lparr>piano_sessions = [], weekly_awards = [],
       tests = [\<lparr>test_id = 1, test_date = days_from_civil 2026 2 2, test_subject = ''Math'',
                 test_score = 95, test_max_score = 100, test_awarded = True\<rparr>],
       incidents = [],
       transactions = [\<lparr>tx_id = 1, tx_date = days_from_civil 2026 2 2, tx_type = ''test'',
                        tx_amount = 100, tx_description = ''Math test: 95/100 (95%)''\<rparr>],
       piano_sessions_seq = 0, weekly_awards_seq = 0, tests_seq = 1, incidents_seq = 0,
       transactions_seq = 1\<rparr>)"
    unfolding p d by (simp add: empty_db_def)
  with h1 h2 h3 h4 h5 h6 h7 h8 show ?thesis by simp
qed

text \<open>A subject of 256 characters whose last is a space is stored without it, and
  appears as it came in the description of the reward.\<close>

lemma post_api_test_trailing_space:
  "post_api_test empty_db (days_from_civil 2026 2 2) (replicate 255 (CHR ''a'') @ '' '')
     (Num 100) (Num 100) =
     (Inr \<lparr>rt_awarded = True, rt_percentage = Some 100\<rparr>,
      \<lparr>piano_sessions = [], weekly_awards = [],
       tests = [\<lparr>test_id = 1, test_date = days_from_civil 2026 2 2,
                 test_subject = replicate 255 (CHR ''a''),
                 test_score = 100, test_max_score = 100, test_awarded = True\<rparr>],
       incidents = [],
       transactions = [\<lparr>tx_id = 1, tx_date = days_from_civil 2026 2 2, tx_type = ''test'',
                        tx_amount = 100,
                        tx_description = replicate 255 (CHR ''a'') @ ''  test: 100/100 (100%)''\<rparr>],
       piano_sessions_seq = 0, weekly_awards_seq = 0, tests_seq = 1, incidents_seq = 0,
       transactions_seq = 1\<rparr>)"
  by code_simp

text \<open>
  C3 as stated has the row inserted, the reward inserted if and only if the percentage
  is at least 95, and the verdict answered, for every test with \<open>maxScore > 0\<close>. The
  first \<^verbatim>\<open>INSERT\<close> refuses 2147483648 of 2147483648 (100 percent) as beyond the \<^verbatim>\<open>INTEGER\<close>
  range, and 9.5 of 10 (95 percent) as no integer; it refuses a subject that holds the
  character NUL, a subject of 256 letters, and a date that PostgreSQL does not read
  (here \<^verbatim>\<open>'0000-12-31'\<close> and \<^verbatim>\<open>'+010000-01-01'\<close>); and it refuses every test once the
  sequence of \<^verbatim>\<open>tests\<close> has issued its last id. In each case the route answers 500 and stores no
  row. Once the sequence of \<^verbatim>\<open>transactions\<close> has issued its last id, a test of 95 of 100
  is stored as awarded, and answered with 500 without a transaction.
\<close>

theorem test_not_stored:
  "js_ge (js_mul (js_div (Num 2147483648) (Num 2147483648)) (Num 100)) (Num 95)
   \<and> post_api_test empty_db (days_from_civil 2026 2 2) ''Math'' (Num 2147483648) (Num 2147483648) =
       (Inl StorageFailure, empty_db)
   \<and> js_ge (js_mul (js_div (Num (19 / 2)) (Num 10)) (Num 100)) (Num 95)
   \<and> post_api_test empty_db (days_from_civil 2026 2 2) ''Math'' (Num (19 / 2)) (Num 10) =
       (Inl StorageFailure, empty_db)
   \<and> post_api_test empty_db (days_from_civil 2026 2 2) [CHR ''M'', CHR 0x00] (Num 95) (Num 100) =
       (Inl StorageFailure, empty_db)
   \<and> fst (post_api_test empty_db (days_from_civil 2026 2 2) (replicate 256 (CHR ''a''))
        (Num 95) (Num 100)) = Inl StorageFailure
   \<and> tests (snd (post_api_test empty_db (days_from_civil 2026 2 2) (replicate 256 (CHR ''a''))
        (Num 95) (Num 100))) = []
   \<and> post_api_test empty_db (days_from_civil 0 12 31) ''Math'' (Num 95) (Num 100) =
       (Inl StorageFailure, empty_db)
   \<and> post_api_test empty_db (days_from_civil 10000 1 1) ''Math'' (Num 95) (Num 100) =
       (Inl StorageFailure, empty_db)
   \<and> fst (post_api_test (empty_db\<lparr>tests_seq := 2147483647\<rparr>) (days_from_civil 2026 2 2) ''Math''
        (Num 95) (Num 100)) = Inl StorageFailure
   \<and> tests (snd (post_api_test (empty_db\<lparr>tests_seq := 2147483647\<rparr>) (days_from_civil 2026 2 2)
        ''Math'' (Num 95) (Num 100))) = []
   \<and> fst (post_api_test (empty_db\<lparr>transactions_seq := 2147483647\<rparr>) (days_from_civil 2026 2 2)
        ''Math'' (Num 95) (Num 100)) = Inl StorageFailure
   \<and> tests (snd (post_api_test (empty_db\<lparr>transactions_seq := 2147483647\<rparr>)
        (days_from_civil 2026 2 2) ''Math'' (Num 95) (Num 100))) =
       [\<lparr>test_id = 1, test_date = days_from_civil 2026 2 2, test_subject = ''Math'',
         test_score = 95, test_max_score = 100, test_awarded = True\<rparr>]
   \<and> transactions (snd (post_api_test (empty_db\<lparr>transactions_seq := 2147483647\<rparr>)
        (days_from_civil 2026 2 2) ''Math'' (Num 95) (Num 100))) = []"
proof -
  have full: "\<not> has_next 2147483647" by (simp add: has_next_def)
  have free: "has_next 0" by code_simp
  have acc: "pg_int4 (Num 95) = Some 95" "pg_int4 (Num 100) = Some 100"
    "varchar255 ''Math'' = Some ''Math''" "pg_date_ok (days_from_civil 2026 2 2)"
    "pg_text_ok ''Math''" "js_ge (js_mul (js_div (Num 95) (Num 100)) (Num 100)) (Num 95)"
    by code_simp+
  have 1: "js_ge (js_mul (js_div (Num 2147483648) (Num 2147483648)) (Num 100)) (Num 95)"
    by code_simp
  have 2: "post_api_test empty_db (days_from_civil 2026 2 2) ''Math'' (Num 2147483648)
      (Num 2147483648) = (Inl StorageFailure, empty_db)"
    by code_simp
  have 3: "js_ge (js_mul (js_div (Num (19 / 2)) (Num 10)) (Num 100)) (Num 95)"
    by code_simp
  have 4: "post_api_test empty_db (days_from_civil 2026 2 2) ''Math'' (Num (19 / 2)) (Num 10) =
      (Inl StorageFailure, empty_db)"
    by code_simp
  have 5: "post_api_test empty_db (days_from_civil 2026 2 2) [CHR ''M'', CHR 0x00] (Num 95)
      (Num 100) = (Inl StorageFailure, empty_db)"
    by code_simp
  have 6: "post_api_test empty_db (days_from_civil 2026 2 2) (replicate 256 (CHR ''a''))
      (Num 95) (Num 100) = (Inl StorageFailure, empty_db)"
    by code_simp
  have 7: "post_api_test empty_db (days_from_civil 10000 1 1) ''Math'' (Num 95) (Num 100) =
      (Inl StorageFailure, empty_db)"
    "post_api_test empty_db (days_from_civil 0 12 31) ''Math'' (Num 95) (Num 100) =
      (Inl StorageFailure, empty_db)"
    by code_simp+
  have 8: "post_api_test (empty_db\<lparr>tests_seq := 2147483647\<rparr>) (days_from_civil 2026 2 2) ''Math''
      (Num 95) (Num 100) = (Inl StorageFailure, empty_db\<lparr>tests_seq := 2147483647\<rparr>)"
    using full acc by (simp add: post_api_test_def)
  have 9: "post_api_test (empty_db\<lparr>transactions_seq := 2147483647\<rparr>) (days_from_civil 2026 2 2)
      ''Math'' (Num 95) (Num 100) =
      (Inl StorageFailure,
       insert_test (days_from_civil 2026 2 2) ''Math'' 95 100 True
         (empty_db\<lparr>transactions_seq := 2147483647\<rparr>))"
    using full free acc by (simp add: post_api_test_def insert_test_def empty_db_def)
  show ?thesis
    unfolding 2 4 5 6 7 8 9 using 1 3 by (simp add: insert_test_def empty_db_def)
qed

lemma percentage_zero_max:
  assumes "pg_int4 score = Some a" and "pg_int4 maxScore = Some 0"
  shows "js_mul (js_div score maxScore) (Num 100) =
     (if a = 0 then NaN
      else if (0 < a \<and> maxScore = Num 0) \<or> (a < 0 \<and> maxScore = NegZero) then PosInf
      else NegInf)"
proof -
  from pg_int4_Some [OF assms(2)] have ms: "maxScore = Num 0 \<or> maxScore = NegZero" by auto
  from pg_int4_Some [OF assms(1)]
  consider "score = NegZero" "a = 0" | "score = Num 0" "a = 0"
    | "score = Num (of_int a)" "a \<noteq> 0" by (cases "a = 0") auto
  then show ?thesis
  proof cases
    case 1
    then show ?thesis using ms by (auto simp: js_div_def js_mul_def)
  next
    case 2
    then show ?thesis using ms by (auto simp: js_div_def js_mul_def)
  next
    case 3
    then show ?thesis using ms by (auto simp: js_div_def js_mul_def)
  qed
qed

text \<open>
  C4 (as amended). A test with \<open>maxScore = 0\<close> does not fail with a division error: a
  division by zero does not throw, and the route has no check. When the table accepts
  the row (date, subject and score as for C3; maxScore is 0 or \<open>-0\<close>) and the sequences
  have ids left, the row is stored and the answer carries the verdict and, as the
  percentage, \<^verbatim>\<open>null\<close>: the percentage is \<^verbatim>\<open>Infinity\<close>, \<^verbatim>\<open>-Infinity\<close> or \<^verbatim>\<open>NaN\<close>. It is
  \<^verbatim>\<open>Infinity\<close> for a positive score with maxScore 0 and for a negative score with
  maxScore \<open>-0\<close>: then \<open>awarded\<close> is true and a +100 transaction described with
  \<^verbatim>\<open>(Infinity%)\<close> is inserted. Otherwise \<open>awarded\<close> is false and no transaction is inserted.
\<close>

theorem post_api_test_max_score_zero:
  fixes s :: db and date :: day and subject :: string and score maxScore :: jsnum
    and a :: int
  defines "award \<equiv> (0 < a \<and> maxScore = Num 0) \<or> (a < 0 \<and> maxScore = NegZero)"
  defines "s1 \<equiv> \<lambda>awarded. s\<lparr>tests := tests s @
             [\<lparr>test_id = tests_seq s + 1, test_date = date, test_subject = take 255 subject,
               test_score = a, test_max_score = 0, test_awarded = awarded\<rparr>],
           tests_seq := tests_seq s + 1\<rparr>"
  assumes "pg_int4 score = Some a" and "pg_int4 maxScore = Some 0"
    and "pg_date_ok date" and "pg_text_ok subject" and "varchar255 subject \<noteq> None"
    and "has_next (tests_seq s)"
    and "award \<Longrightarrow> has_next (transactions_seq s)"
  shows "js_mul (js_div score maxScore) (Num 100) =
           (if award then PosInf else if a = 0 then NaN else NegInf)
     \<and> post_api_test s date subject score maxScore =
         (Inr \<lparr>rt_awarded = award, rt_percentage = None\<rparr>,
          if award then
            (s1 True)\<lparr>transactions := transactions s @
               [\<lparr>tx_id = transactions_seq s + 1, tx_date = date, tx_type = ''test'',
                 tx_amount = 100,
                 tx_description = subject @ '' test: '' @ show_int a @ ''/0 (Infinity%)''\<rparr>],
              transactions_seq := transactions_seq s + 1\<rparr>
          else s1 False)"
proof -
  define pct where "pct = js_mul (js_div score maxScore) (Num 100)"
  have sz: "show_int 0 = ''0''" by (simp add: show_int_def)
  from assms(7) have sub: "varchar255 subject = Some (take 255 subject)"
    by (simp add: varchar255_def split: if_splits)
  from percentage_zero_max [OF assms(3,4)]
  have pct: "pct = (if award then PosInf else if a = 0 then NaN else NegInf)"
    by (auto simp: pct_def award_def)
  show ?thesis
  proof (cases award)
    case True
    with pct have p: "pct = PosInf" by simp
    from True assms(9) have n: "has_next (transactions_seq s)" by simp
    have "post_api_test s date subject score maxScore =
         (Inr \<lparr>rt_awarded = True, rt_percentage = None\<rparr>,
            (s1 True)\<lparr>transactions := transactions s @
               [\<lparr>tx_id = transactions_seq s + 1, tx_date = date, tx_type = ''test'',
                 tx_amount = 100,
                 tx_description = subject @ '' test: '' @ show_int a @ ''/0 (Infinity%)''\<rparr>],
              transactions_seq := transactions_seq s + 1\<rparr>)"
      unfolding post_api_test_def pct_def [symmetric] Let_def p
      using assms(3-6,8) sub n sz
      by (simp add: insert_test_def insert_transaction_def s1_def js_ge_def json_number_def
          toFixed0_def)
    with True p show ?thesis by (simp add: pct_def)
  next
    case False
    with pct have p: "pct = NaN \<or> pct = NegInf" by auto
    have "post_api_test s date subject score maxScore =
         (Inr \<lparr>rt_awarded = False, rt_percentage = None\<rparr>, s1 False)"
      unfolding post_api_test_def pct_def [symmetric] Let_def
      using assms(3-6,8) sub p
      by (auto simp: insert_test_def s1_def js_ge_def json_number_def)
    with False pct show ?thesis by (simp add: pct_def)
  qed
qed

theorem post_api_test_max_score_zero_witness:
  "pg_int4 (Num (- 3)) = Some (- 3) \<and> pg_int4 NegZero = Some 0
   \<and> pg_date_ok (days_from_civil 2026 2 2) \<and> pg_text_ok ''Math''
   \<and> varchar255 ''Math'' \<noteq> None \<and> has_next (tests_seq empty_db)
   \<and> has_next (transactions_seq empty_db)
   \<and> post_api_test empty_db (days_from_civil 2026 2 2) ''Math'' (Num (- 3)) NegZero =
     (Inr \<lparr>rt_awarded = True, rt_percentage = None\<rparr>,
      \<lparr>piano_sessions = [], weekly_awards = [],
       tests = [\<lparr>test_id = 1, test_date = days_from_civil 2026 2 2, test_subject = ''Math'',
                 test_score = - 3, test_max_score = 0, test_awarded = True\<rparr>],
       incidents = [],
       transactions = [\<lparr>tx_id = 1, tx_date = days_from_civil 2026 2 2, tx_type = ''test'',
                        tx_amount = 100, tx_description = ''Math test: -3/0 (Infinity%)''\<rparr>],
       piano_sessions_seq = 0, weekly_awards_seq = 0, tests_seq = 1, incidents_seq = 0,
       transactions_seq = 1\<rparr>)"
proof -
  have h1: "pg_int4 (Num (- 3)) = Some (- 3)" and h2: "pg_int4 NegZero = Some 0" by code_simp+
  have h3: "pg_date_ok (days_from_civil 2026 2 2)" and h4: "pg_text_ok ''Math''"
    and h5: "varchar255 ''Math'' \<noteq> None" by code_simp+
  have h6: "has_next (tests_seq empty_db)" and h7: "has_next (transactions_seq empty_db)"
    by code_simp+
  have d: "show_int (- 3) = ''-3''" by code_simp
  from post_api_test_max_score_zero [OF h1 h2 h3 h4 h5 h6 h7]
  have "post_api_test empty_db (days_from_civil 2026 2 2) ''Math'' (Num (- 3)) NegZero =
     (Inr \<lparr>rt_awarded = True, rt_percentage = None\<rparr>,
      \<lparr>piano_sessions = [], weekly_awards = [],
       tests = [\<lparr>test_id = 1, test_date = days_from_civil 2026 2 2, test_subject = ''Math'',
                 test_score = - 3, test_max_score = 0, test_awarded = True\<rparr>],
       incidents = [],
       transactions = [\<lparr>tx_id = 1, tx_date = days_from_civil 2026 2 2, tx_type = ''test'',
                        tx_amount = 100, tx_description = ''Math test: -3/0 (Infinity%)''\<rparr>],
       piano_sessions_seq = 0, weekly_awards_seq = 0, tests_seq = 1, incidents_seq = 0,
       transactions_seq = 1\<rparr>)"
    unfolding d by (simp add: empty_db_def)
  with h1 h2 h3 h4 h5 h6 h7 show ?thesis by simp
qed

text \<open>
  C4 as stated says that no verdict, no test record and no transaction come of
  \<open>maxScore = 0\<close>. Score 5 of 0 is answered \<open>awarded = true\<close> (with the percentage
  \<^verbatim>\<open>null\<close>), stored and rewarded.
\<close>

theorem test_max_score_zero_awards:
  "post_api_test empty_db (days_from_civil 2026 2 2) ''Math'' (Num 5) (Num 0) =
   (Inr \<lparr>rt_awarded = True, rt_percentage = None\<rparr>,
    \<lparr>piano_sessions = [], weekly_awards = [],
     tests = [\<lparr>test_id = 1, test_date = days_from_civil 2026 2 2, test_subject = ''Math'',
               test_score = 5, test_max_score = 0, test_awarded = True\<rparr>],
     incidents = [],
     transactions =
       [\<lparr>tx_id = 1, tx_date = days_from_civil 2026 2 2, tx_type = ''test'', tx_amount = 100,
         tx_description = ''Math test: 5/0 (Infinity%)''\<rparr>],
     piano_sessions_seq = 0, weekly_awards_seq = 0, tests_seq = 1, incidents_seq = 0,
     transactions_seq = 1\<rparr>)"
  by code_simp

end
